theory Spec2Isabelle
  imports Main "HOL-Library.Word" "HOL-Library.Multiset"
begin

section \<open>Errors and sequencing\<close>

text \<open>
  Every exception, null dereference and invalid \<open>delete\<close> of the C++ source is a value of
  \<open>error\<close>; a fallible operation returns \<open>error + 'a\<close>, with \<open>Inl\<close> for the failure.
\<close>

datatype error =
    OutOfRange            \<comment> \<open>\<open>std::out_of_range\<close> of \<open>unordered_map::at\<close>, or an index past a vector\<close>
  | NullDereference       \<comment> \<open>\<open>->\<close> applied to a null pointer\<close>
  | NotImplemented        \<comment> \<open>\<open>NOT_IMPLEMENTED_EXCEPTION\<close>\<close>
  | InvalidFree           \<comment> \<open>\<open>delete\<close> of something that is not a live object\<close>
  | TypeMismatch          \<comment> \<open>a cell read at a type it was not written with\<close>
  | BadAlloc              \<comment> \<open>the allocator has nothing left to hand out\<close>
  | UnregisteredTable     \<comment> \<open>recovery meets a table oid nobody registered\<close>
  | SchemaMismatch        \<comment> \<open>recovery meets a schema fingerprint that differs\<close>
  | RecoveryCorrupt       \<comment> \<open>a checkpoint or log record that cannot be applied\<close>

definition ebind :: "error + 'a \<Rightarrow> ('a \<Rightarrow> error + 'b) \<Rightarrow> error + 'b" where
  "ebind m f = (case m of Inl e \<Rightarrow> Inl e | Inr x \<Rightarrow> f x)"

text \<open>A block of statements, run in order, stopping at the first failure.\<close>

fun seq :: "('s \<Rightarrow> error + 's) list \<Rightarrow> 's \<Rightarrow> error + 's" where
  "seq [] s = Inr s"
| "seq (f # fs) s = ebind (f s) (seq fs)"

section \<open>Transactions and the versioned table\<close>

type_synonym timestamp_t = nat

text \<open>
  Modelled from the spec: the transaction manager (\<open>transaction_manager.h\<close> is not among the
  sources). Section 4.2: \<open>begin\<close> records \<open>start_ts\<close> from a monotonic counter, \<open>commit\<close>
  assigns \<open>commit_ts\<close> from the same counter and stamps every undo record of the transaction
  with it. A transaction is identified by its start timestamp.
\<close>

text \<open>A member \<open>x_\<close> of a C++ class is the field \<open>m_x\<close> of the record.\<close>

record TransactionManager =
  m_time :: timestamp_t

definition BeginTransaction :: "TransactionManager \<Rightarrow> timestamp_t \<times> TransactionManager" where
  "BeginTransaction tm = (m_time tm, tm\<lparr>m_time := m_time tm + 1\<rparr>)"

definition Commit :: "TransactionManager \<Rightarrow> timestamp_t \<times> TransactionManager" where
  "Commit tm = (m_time tm, tm\<lparr>m_time := m_time tm + 1\<rparr>)"

text \<open>
  Modelled from the spec: the MVCC data table (\<open>data_table.h\<close> is not among the sources).
  Section 3: a version is an undo record \<open>(prev_version_ptr, begin_ts, delta)\<close>; the versions
  of a slot form a chain, newest first, over the image stored in the slot. The stamp of a
  version is the start timestamp of its writer until that writer commits, and the commit
  timestamp afterwards. The delta of an insert marks the slot as newly created; the delta of
  an update holds the values the modified columns had before. A slot is the position of the
  tuple in the table (slots are allocated sequentially); the block store is taken as large
  enough, so that allocation does not fail.
\<close>

datatype stamp = Uncommitted timestamp_t | Committed timestamp_t

datatype 'v delta = Created | Before "(nat \<times> 'v) list"

datatype 'v version = Version (begin_ts: stamp) (delta: "'v delta")

datatype 'v tuple = Tuple (current: "'v list") (chain: "'v version list")

type_synonym 'v DataTable = "'v tuple list"

definition Insert :: "timestamp_t \<Rightarrow> 'v list \<Rightarrow> 'v DataTable \<Rightarrow> nat \<times> 'v DataTable" where
  "Insert txn row tbl = (length tbl, tbl @ [Tuple row [Version (Uncommitted txn) Created]])"

text \<open>
  A version is visible to a reader when the reader wrote it, or when its writer committed
  before the reader started (strictly less than, section 4.1).
\<close>

fun visible :: "timestamp_t \<Rightarrow> stamp \<Rightarrow> bool" where
  "visible txn (Uncommitted w) = (w = txn)"
| "visible txn (Committed c) = (c < txn)"

definition ApplyDelta :: "(nat \<times> 'v) list \<Rightarrow> 'v list \<Rightarrow> 'v list" where
  "ApplyDelta d row = fold (\<lambda>(c, v) r. r[c := v]) d row"

text \<open>
  \<open>select\<close> walks the chain from the head, applying deltas backward until it reaches a
  visible version; a tuple whose creation is not visible is not there.
\<close>

fun walk :: "timestamp_t \<Rightarrow> 'v list \<Rightarrow> 'v version list \<Rightarrow> 'v list option" where
  "walk txn img [] = Some img"
| "walk txn img (v # vs) =
     (if visible txn (begin_ts v) then Some img
      else (case delta v of Created \<Rightarrow> None | Before d \<Rightarrow> walk txn (ApplyDelta d img) vs))"

definition Select :: "timestamp_t \<Rightarrow> 'v tuple \<Rightarrow> 'v list option" where
  "Select txn t = walk txn (current t) (chain t)"

text \<open>
  \<open>scan\<close> advances through the slots from the iterator, emitting those visible to the
  transaction, up to the batch size of the caller's buffer; it returns the tuples emitted
  and the advanced iterator.
\<close>

fun scan_slots :: "timestamp_t \<Rightarrow> nat \<Rightarrow> nat \<Rightarrow> 'v tuple list \<Rightarrow> (nat \<times> 'v list) list \<times> nat" where
  "scan_slots txn max_tuples it [] = ([], it)"
| "scan_slots txn max_tuples it (t # ts) =
     (if max_tuples = 0 then ([], it)
      else (case Select txn t of
              None \<Rightarrow> scan_slots txn max_tuples (it + 1) ts
            | Some row \<Rightarrow>
                (let (out, it') = scan_slots txn (max_tuples - 1) (it + 1) ts
                 in ((it, row) # out, it'))))"

definition Scan :: "timestamp_t \<Rightarrow> nat \<Rightarrow> nat \<Rightarrow> 'v DataTable \<Rightarrow> (nat \<times> 'v list) list \<times> nat" where
  "Scan txn it max_tuples tbl = scan_slots txn max_tuples it (drop it tbl)"

text \<open>Commit stamps every undo record of the transaction with the commit timestamp.\<close>

definition stamp_version :: "timestamp_t \<Rightarrow> timestamp_t \<Rightarrow> 'v version \<Rightarrow> 'v version" where
  "stamp_version txn commit_ts v =
     (if begin_ts v = Uncommitted txn then Version (Committed commit_ts) (delta v) else v)"

definition stamp_table :: "timestamp_t \<Rightarrow> timestamp_t \<Rightarrow> 'v DataTable \<Rightarrow> 'v DataTable" where
  "stamp_table txn commit_ts tbl =
     map (\<lambda>t. Tuple (current t) (map (stamp_version txn commit_ts) (chain t))) tbl"

section \<open>Catalog tables\<close>

type_synonym oid_t = "32 word"
type_synonym addr = "64 word"

text \<open>
  Modelled from the spec: \<open>type::TypeId\<close> (\<open>type_id.h\<close> is not among the sources); the
  source names \<open>BOOLEAN\<close>, \<open>INTEGER\<close>, \<open>BIGINT\<close> and \<open>VARCHAR\<close>, section 3 gives attribute
  sizes 1, 2, 4, 8 and varlen.
\<close>

datatype TypeId =
  INVALID | BOOLEAN | TINYINT | SMALLINT | INTEGER | BIGINT | DECIMAL | TIMESTAMP | DATE
  | VARCHAR | VARBINARY

text \<open>
  The value of one attribute of a catalog row, tagged with the setter that wrote it;
  \<open>Unset\<close> is an attribute no setter touched, \<open>VarcharCell None\<close> the \<open>nullptr\<close> string.
\<close>

datatype cell = Unset | IntCell "32 word" | BigintCell "64 word" | VarcharCell "string option"

record Column =
  column_name :: string
  column_type :: TypeId
  column_nullable :: bool
  column_oid :: oid_t

text \<open>
  Modelled from the spec: \<open>catalog::SqlTableRW\<close> (\<open>catalog_sql_table.h\<close> is not among the
  sources), the helper through which the catalog builds and reads its tables; a SQL table
  wraps the MVCC table with a typed schema (section 2). The operations are the ones the
  sources call: columns are defined, \<open>Create\<close> fixes the schema, a row is started, its
  attributes are set by column number, and it is inserted under a transaction.
\<close>

record SqlTableRW =
  m_table_oid :: oid_t
  m_cols :: "Column list"
  m_schema :: "Column list"
  m_insert :: "cell list"
  m_table :: "cell DataTable"

definition new_SqlTableRW :: "oid_t \<Rightarrow> SqlTableRW" where
  "new_SqlTableRW table_oid =
     \<lparr>m_table_oid = table_oid, m_cols = [], m_schema = [], m_insert = [], m_table = []\<rparr>"

definition DefineColumn :: "string \<Rightarrow> TypeId \<Rightarrow> bool \<Rightarrow> oid_t \<Rightarrow> SqlTableRW \<Rightarrow> SqlTableRW" where
  "DefineColumn name ty nullable oid t =
     t\<lparr>m_cols := m_cols t @ [\<lparr>column_name = name, column_type = ty, column_nullable = nullable,
                            column_oid = oid\<rparr>]\<rparr>"

definition Create :: "SqlTableRW \<Rightarrow> SqlTableRW" where
  "Create t = t\<lparr>m_schema := m_cols t, m_table := []\<rparr>"

definition StartRow :: "SqlTableRW \<Rightarrow> SqlTableRW" where
  "StartRow t = t\<lparr>m_insert := replicate (length (m_schema t)) Unset\<rparr>"

definition SetColInRow :: "nat \<Rightarrow> cell \<Rightarrow> SqlTableRW \<Rightarrow> error + SqlTableRW" where
  "SetColInRow col_num v t =
     (if col_num < length (m_insert t) then Inr (t\<lparr>m_insert := (m_insert t)[col_num := v]\<rparr>)
      else Inl OutOfRange)"

definition SetIntColInRow :: "nat \<Rightarrow> 32 word \<Rightarrow> SqlTableRW \<Rightarrow> error + SqlTableRW" where
  "SetIntColInRow col_num v = SetColInRow col_num (IntCell v)"

definition SetBigintColInRow :: "nat \<Rightarrow> 64 word \<Rightarrow> SqlTableRW \<Rightarrow> error + SqlTableRW" where
  "SetBigintColInRow col_num v = SetColInRow col_num (BigintCell v)"

definition SetVarcharColInRow :: "nat \<Rightarrow> string option \<Rightarrow> SqlTableRW \<Rightarrow> error + SqlTableRW" where
  "SetVarcharColInRow col_num v = SetColInRow col_num (VarcharCell v)"

definition EndRowAndInsert :: "timestamp_t \<Rightarrow> SqlTableRW \<Rightarrow> SqlTableRW" where
  "EndRowAndInsert txn t = t\<lparr>m_table := snd (Insert txn (m_insert t) (m_table t))\<rparr>"

text \<open>
  \<open>FindRow\<close> is the single-row scan of section 4.6: the first row visible to the
  transaction whose attribute \<open>col_num\<close> holds the value looked for, or not found (the null
  pointer).
\<close>

definition visible_rows :: "timestamp_t \<Rightarrow> 'v DataTable \<Rightarrow> 'v list list" where
  "visible_rows txn tbl = List.map_filter (Select txn) tbl"

definition FindRow :: "timestamp_t \<Rightarrow> nat \<Rightarrow> cell \<Rightarrow> SqlTableRW \<Rightarrow> cell list option" where
  "FindRow txn col_num v t =
     find (\<lambda>row. col_num < length row \<and> row ! col_num = v) (visible_rows txn (m_table t))"

text \<open>
  Reading attribute \<open>col_num\<close> of a row as a 32-bit or a 64-bit integer
  (\<open>*reinterpret_cast<uint32_t *>(row.AccessForceNotNull(...))\<close>). The bytes of an attribute
  written at another type are outside the model: such a read is the failure
  \<open>TypeMismatch\<close>.
\<close>

definition AccessInt :: "nat \<Rightarrow> cell list \<Rightarrow> error + 32 word" where
  "AccessInt col_num row =
     (if col_num < length row
      then (case row ! col_num of IntCell v \<Rightarrow> Inr v | _ \<Rightarrow> Inl TypeMismatch)
      else Inl OutOfRange)"

definition AccessBigint :: "nat \<Rightarrow> cell list \<Rightarrow> error + 64 word" where
  "AccessBigint col_num row =
     (if col_num < length row
      then (case row ! col_num of BigintCell v \<Rightarrow> Inr v | _ \<Rightarrow> Inl TypeMismatch)
      else Inl OutOfRange)"

text \<open>\<open>GetIntColInRow(col_num, p_row)\<close> reads through the row pointer without a check.\<close>

definition GetIntColInRow :: "nat \<Rightarrow> cell list option \<Rightarrow> error + 32 word" where
  "GetIntColInRow col_num p_row =
     (case p_row of None \<Rightarrow> Inl NullDereference | Some row \<Rightarrow> AccessInt col_num row)"

section \<open>The catalog\<close>

record UnusedSchemaCols =
  col_num :: nat
  col_name :: string
  type_id :: TypeId

text \<open>
  The state of \<open>catalog::Catalog\<close>. The tables are shared objects: \<open>heap\<close> maps the address
  of every live \<open>SqlTableRW\<close> to its value, and a \<open>shared_ptr\<close> is the address. \<open>allocator\<close>
  lists the addresses that the next allocations return, in order. The transaction manager
  the catalog points to is part of the state.
\<close>

record Catalog =
  m_txn_manager :: TransactionManager
  m_oid :: oid_t
  m_pg_database :: addr
  m_pg_tablespace :: addr
  m_map :: "oid_t \<rightharpoonup> (oid_t \<rightharpoonup> addr)"
  m_name_map :: "oid_t \<rightharpoonup> (string \<rightharpoonup> oid_t)"
  m_pg_database_unused_cols :: "UnusedSchemaCols list"
  heap :: "addr \<rightharpoonup> SqlTableRW"
  allocator :: "addr list"

definition deref :: "Catalog \<Rightarrow> addr \<Rightarrow> error + SqlTableRW" where
  "deref c p = (case heap c p of None \<Rightarrow> Inl NullDereference | Some t \<Rightarrow> Inr t)"

text \<open>\<open>p->f(...)\<close> for a method that may fail, and for one that cannot.\<close>

definition on_table :: "addr \<Rightarrow> (SqlTableRW \<Rightarrow> error + SqlTableRW) \<Rightarrow> Catalog \<Rightarrow> error + Catalog" where
  "on_table p f c =
     ebind (deref c p) (\<lambda>t. ebind (f t) (\<lambda>t'. Inr (c\<lparr>heap := (heap c)(p \<mapsto> t')\<rparr>)))"

definition call :: "addr \<Rightarrow> (SqlTableRW \<Rightarrow> SqlTableRW) \<Rightarrow> Catalog \<Rightarrow> error + Catalog" where
  "call p f = on_table p (\<lambda>t. Inr (f t))"

definition make_shared :: "oid_t \<Rightarrow> Catalog \<Rightarrow> error + (addr \<times> Catalog)" where
  "make_shared table_oid c =
     (case allocator c of
        [] \<Rightarrow> Inl BadAlloc
      | p # free \<Rightarrow> Inr (p, c\<lparr>allocator := free, heap := (heap c)(p \<mapsto> new_SqlTableRW table_oid)\<rparr>))"

text \<open>\<open>delete p\<close>: nothing for the null pointer, undefined for anything that is not live.\<close>

definition delete :: "addr \<Rightarrow> Catalog \<Rightarrow> error + Catalog" where
  "delete p c =
     (if p = 0 then Inr c
      else (case heap c p of
              None \<Rightarrow> Inl InvalidFree
            | Some t \<Rightarrow> Inr (c\<lparr>heap := (heap c)(p := None)\<rparr>)))"

definition GetNextOid :: "Catalog \<Rightarrow> oid_t \<times> Catalog" where
  "GetNextOid c = (m_oid c, c\<lparr>m_oid := m_oid c + 1\<rparr>)"

text \<open>\<open>p->DefineColumn(name, type, false, col_oid_t(GetNextOid()))\<close>\<close>

definition DefineColumn_GetNextOid :: "addr \<Rightarrow> string \<Rightarrow> TypeId \<Rightarrow> Catalog \<Rightarrow> error + Catalog" where
  "DefineColumn_GetNextOid p name ty c =
     (let (oid, c1) = GetNextOid c in call p (DefineColumn name ty False oid) c1)"

definition GetDatabaseCatalog_oid :: "Catalog \<Rightarrow> oid_t \<Rightarrow> oid_t \<Rightarrow> error + addr" where
  "GetDatabaseCatalog_oid c db_oid table_oid =
     (case m_map c db_oid of
        None \<Rightarrow> Inl OutOfRange
      | Some tables \<Rightarrow> (case tables table_oid of None \<Rightarrow> Inl OutOfRange | Some p \<Rightarrow> Inr p))"

definition GetDatabaseCatalog :: "Catalog \<Rightarrow> oid_t \<Rightarrow> string \<Rightarrow> error + addr" where
  "GetDatabaseCatalog c db_oid table_name =
     (case m_name_map c db_oid of
        None \<Rightarrow> Inl OutOfRange
      | Some names \<Rightarrow>
          (case names table_name of
             None \<Rightarrow> Inl OutOfRange
           | Some table_oid \<Rightarrow> GetDatabaseCatalog_oid c db_oid table_oid))"

text \<open>\<open>map_[db_oid][table_oid] = p\<close> and \<open>name_map_[db_oid][name] = table_oid\<close>\<close>

definition set_map :: "oid_t \<Rightarrow> oid_t \<Rightarrow> addr \<Rightarrow> Catalog \<Rightarrow> Catalog" where
  "set_map db_oid table_oid p c =
     c\<lparr>m_map := (m_map c)(db_oid \<mapsto>
          (case m_map c db_oid of None \<Rightarrow> Map.empty | Some tables \<Rightarrow> tables)(table_oid \<mapsto> p))\<rparr>"

definition set_name_map :: "oid_t \<Rightarrow> string \<Rightarrow> oid_t \<Rightarrow> Catalog \<Rightarrow> Catalog" where
  "set_name_map db_oid name table_oid c =
     c\<lparr>m_name_map := (m_name_map c)(db_oid \<mapsto>
          (case m_name_map c db_oid of None \<Rightarrow> Map.empty | Some names \<Rightarrow> names)(name \<mapsto> table_oid))\<rparr>"

text \<open>
  Modelled from the spec: the namespace and tablespace handles (\<open>namespace_handle.h\<close>,
  \<open>tablespace_handle.h\<close> and \<open>database_handle.h\<close> are not among the sources). Section 4.6:
  a handle executes a single-row scan against the underlying catalog table under the
  caller's transaction, and the result is either the entry or not found. The namespace
  handle of a database reads that database's \<open>pg_namespace\<close>, the tablespace handle reads
  \<open>pg_tablespace\<close>; the name is attribute 1 and the oid attribute 0 of both tables.
\<close>

definition GetNamespaceEntry :: "Catalog \<Rightarrow> timestamp_t \<Rightarrow> oid_t \<Rightarrow> string \<Rightarrow> error + cell list option" where
  "GetNamespaceEntry c txn db_oid name =
     ebind (GetDatabaseCatalog c db_oid ''pg_namespace'') (\<lambda>p.
     ebind (deref c p) (\<lambda>t. Inr (FindRow txn 1 (VarcharCell (Some name)) t)))"

definition GetNamespaceOid :: "cell list option \<Rightarrow> error + oid_t" where
  "GetNamespaceOid entry = GetIntColInRow 0 entry"

definition NameToOid :: "Catalog \<Rightarrow> timestamp_t \<Rightarrow> oid_t \<Rightarrow> string \<Rightarrow> error + oid_t" where
  "NameToOid c txn db_oid name = ebind (GetNamespaceEntry c txn db_oid name) GetNamespaceOid"

definition GetTablespaceEntry :: "Catalog \<Rightarrow> timestamp_t \<Rightarrow> string \<Rightarrow> error + cell list option" where
  "GetTablespaceEntry c txn name =
     ebind (deref c (m_pg_tablespace c)) (\<lambda>t. Inr (FindRow txn 1 (VarcharCell (Some name)) t))"

definition GetTablespaceOid :: "cell list option \<Rightarrow> error + oid_t" where
  "GetTablespaceOid entry = GetIntColInRow 0 entry"

subsection \<open>Bootstrap\<close>

fun AddUnusedSchemaColumns :: "addr \<Rightarrow> UnusedSchemaCols list \<Rightarrow> Catalog \<Rightarrow> error + Catalog" where
  "AddUnusedSchemaColumns db_p [] c = Inr c"
| "AddUnusedSchemaColumns db_p (col # cols) c =
     ebind (DefineColumn_GetNextOid db_p (col_name col) (type_id col) c)
       (AddUnusedSchemaColumns db_p cols)"

fun SetUnusedSchemaColumns :: "addr \<Rightarrow> UnusedSchemaCols list \<Rightarrow> Catalog \<Rightarrow> error + Catalog" where
  "SetUnusedSchemaColumns db_p [] c = Inr c"
| "SetUnusedSchemaColumns db_p (col # cols) c =
     ebind (case type_id col of
              BOOLEAN \<Rightarrow> Inr c
            | INTEGER \<Rightarrow> on_table db_p (SetIntColInRow (col_num col) 0) c
            | VARCHAR \<Rightarrow> on_table db_p (SetVarcharColInRow (col_num col) None) c
            | _ \<Rightarrow> Inl NotImplemented)
       (\<lambda>c1. ebind (DefineColumn_GetNextOid db_p (col_name col) (type_id col) c1)
                (SetUnusedSchemaColumns db_p cols))"

definition CreatePGDatabase :: "oid_t \<Rightarrow> Catalog \<Rightarrow> error + Catalog" where
  "CreatePGDatabase table_oid c =
     ebind (make_shared table_oid c) (\<lambda>(p, c1).
       seq [\<lambda>c. DefineColumn_GetNextOid (m_pg_database c) ''oid'' INTEGER c,
            \<lambda>c. DefineColumn_GetNextOid (m_pg_database c) ''datname'' VARCHAR c,
            \<lambda>c. AddUnusedSchemaColumns (m_pg_database c) (m_pg_database_unused_cols c) c,
            \<lambda>c. call (m_pg_database c) Create c]
         (c1\<lparr>m_pg_database := p\<rparr>))"

definition PopulatePGDatabase :: "oid_t \<Rightarrow> timestamp_t \<Rightarrow> Catalog \<Rightarrow> error + Catalog" where
  "PopulatePGDatabase DEFAULT_DATABASE_OID txn c =
     (let terrier_oid = DEFAULT_DATABASE_OID in
      seq [\<lambda>c. call (m_pg_database c) StartRow c,
           \<lambda>c. on_table (m_pg_database c) (SetIntColInRow 0 terrier_oid) c,
           \<lambda>c. on_table (m_pg_database c) (SetVarcharColInRow 1 (Some ''terrier'')) c,
           \<lambda>c. SetUnusedSchemaColumns (m_pg_database c) (m_pg_database_unused_cols c) c,
           \<lambda>c. call (m_pg_database c) (EndRowAndInsert txn) c,
           \<lambda>c. Inr (c\<lparr>m_map := (m_map c)(terrier_oid \<mapsto> Map.empty)\<rparr>)] c)"

definition CreatePGTablespace :: "oid_t \<Rightarrow> Catalog \<Rightarrow> error + Catalog" where
  "CreatePGTablespace table_oid c =
     ebind (make_shared table_oid c) (\<lambda>(p, c1).
       seq [\<lambda>c. DefineColumn_GetNextOid (m_pg_tablespace c) ''oid'' INTEGER c,
            \<lambda>c. DefineColumn_GetNextOid (m_pg_tablespace c) ''spcname'' VARCHAR c,
            \<lambda>c. call (m_pg_tablespace c) Create c]
         (c1\<lparr>m_pg_tablespace := p\<rparr>))"

definition PopulatePGTablespace :: "timestamp_t \<Rightarrow> Catalog \<Rightarrow> error + Catalog" where
  "PopulatePGTablespace txn c =
     (let (pg_global_oid, c1) = GetNextOid c;
          (pg_default_oid, c2) = GetNextOid c1
      in seq [\<lambda>c. call (m_pg_tablespace c) StartRow c,
              \<lambda>c. on_table (m_pg_tablespace c) (SetIntColInRow 0 pg_global_oid) c,
              \<lambda>c. on_table (m_pg_tablespace c) (SetVarcharColInRow 1 (Some ''pg_global'')) c,
              \<lambda>c. call (m_pg_tablespace c) (EndRowAndInsert txn) c,
              \<lambda>c. call (m_pg_tablespace c) StartRow c,
              \<lambda>c. on_table (m_pg_tablespace c) (SetIntColInRow 0 pg_default_oid) c,
              \<lambda>c. on_table (m_pg_tablespace c) (SetVarcharColInRow 1 (Some ''pg_default'')) c,
              \<lambda>c. call (m_pg_tablespace c) (EndRowAndInsert txn) c] c2)"

definition CreatePGNameSpace :: "timestamp_t \<Rightarrow> oid_t \<Rightarrow> Catalog \<Rightarrow> error + Catalog" where
  "CreatePGNameSpace txn db_oid c =
     (let (pg_namespace_oid, c1) = GetNextOid c in
      ebind (make_shared pg_namespace_oid c1) (\<lambda>(pg_namespace, c2).
      ebind (seq [DefineColumn_GetNextOid pg_namespace ''oid'' INTEGER,
                  DefineColumn_GetNextOid pg_namespace ''nspname'' VARCHAR,
                  call pg_namespace Create,
                  \<lambda>c. Inr (set_map db_oid pg_namespace_oid pg_namespace c),
                  \<lambda>c. Inr (set_name_map db_oid ''pg_namespace'' pg_namespace_oid c)] c2) (\<lambda>c3.
      let (pg_namespace_col_oid, c4) = GetNextOid c3 in
      ebind (seq [call pg_namespace StartRow,
                  on_table pg_namespace (SetIntColInRow 0 pg_namespace_col_oid),
                  on_table pg_namespace (SetVarcharColInRow 1 (Some ''pg_catalog'')),
                  call pg_namespace (EndRowAndInsert txn)] c4) (\<lambda>c5.
      let (pg_namespace_col_oid, c6) = GetNextOid c5 in
      seq [call pg_namespace StartRow,
           on_table pg_namespace (SetIntColInRow 0 pg_namespace_col_oid),
           on_table pg_namespace (SetVarcharColInRow 1 (Some ''public'')),
           call pg_namespace (EndRowAndInsert txn)] c6))))"

text \<open>
  One of the four blocks of \<open>CreatePGClass\<close> that insert a catalog table into \<open>pg_class\<close>:
  the oid of the table named \<open>relname\<close>, the oid of the namespace \<open>pg_catalog\<close> and the oid of
  the tablespace \<open>spcname\<close> are looked up, then the row is built and inserted. \<open>ptr\<close> is the
  pointer the block stores in \<open>__ptr\<close>.
\<close>

definition CreatePGClass_insert ::
    "timestamp_t \<Rightarrow> oid_t \<Rightarrow> addr \<Rightarrow> string \<Rightarrow> string \<Rightarrow> (Catalog \<Rightarrow> error + addr) \<Rightarrow> Catalog
      \<Rightarrow> error + Catalog" where
  "CreatePGClass_insert txn db_oid pg_class relname spcname ptr c =
     ebind (GetDatabaseCatalog c db_oid relname) (\<lambda>entry_p.
     ebind (deref c entry_p) (\<lambda>entry_t.
     let entry_db_oid = m_table_oid entry_t in
     ebind (ebind (GetNamespaceEntry c txn db_oid ''pg_catalog'') GetNamespaceOid) (\<lambda>namespace_oid.
     ebind (ebind (GetTablespaceEntry c txn spcname) GetTablespaceOid) (\<lambda>tablespace_oid.
     ebind (call pg_class StartRow c) (\<lambda>c1.
     ebind (ptr c1) (\<lambda>p.
       seq [on_table pg_class (SetBigintColInRow 0 p),
            on_table pg_class (SetIntColInRow 1 entry_db_oid),
            on_table pg_class (SetVarcharColInRow 2 (Some relname)),
            on_table pg_class (SetIntColInRow 3 namespace_oid),
            on_table pg_class (SetIntColInRow 4 tablespace_oid),
            call pg_class (EndRowAndInsert txn)] c1))))))"

definition CreatePGClass :: "timestamp_t \<Rightarrow> oid_t \<Rightarrow> Catalog \<Rightarrow> error + Catalog" where
  "CreatePGClass txn db_oid c =
     (let (pg_class_oid, c1) = GetNextOid c in
      ebind (make_shared pg_class_oid c1) (\<lambda>(pg_class, c2).
        seq [DefineColumn_GetNextOid pg_class ''__ptr'' BIGINT,
             DefineColumn_GetNextOid pg_class ''oid'' INTEGER,
             DefineColumn_GetNextOid pg_class ''relname'' VARCHAR,
             DefineColumn_GetNextOid pg_class ''relnamespace'' INTEGER,
             DefineColumn_GetNextOid pg_class ''reltablespace'' INTEGER,
             call pg_class Create,
             \<lambda>c. Inr (set_map db_oid pg_class_oid pg_class c),
             \<lambda>c. Inr (set_name_map db_oid ''pg_class'' pg_class_oid c),
             CreatePGClass_insert txn db_oid pg_class ''pg_database'' ''pg_global''
               (\<lambda>c. GetDatabaseCatalog c db_oid ''pg_database''),
             CreatePGClass_insert txn db_oid pg_class ''pg_tablespace'' ''pg_global''
               (\<lambda>c. GetDatabaseCatalog c db_oid ''pg_tablespace''),
             CreatePGClass_insert txn db_oid pg_class ''pg_namespace'' ''pg_default''
               (\<lambda>c. GetDatabaseCatalog c db_oid ''pg_namespace''),
             CreatePGClass_insert txn db_oid pg_class ''pg_class'' ''pg_default''
               (\<lambda>c. Inr pg_class)] c2))"

definition BootstrapDatabase :: "timestamp_t \<Rightarrow> oid_t \<Rightarrow> Catalog \<Rightarrow> error + Catalog" where
  "BootstrapDatabase txn db_oid c =
     seq [\<lambda>c. ebind (deref c (m_pg_database c)) (\<lambda>t.
                 Inr (set_map db_oid (m_table_oid t) (m_pg_database c) c)),
          \<lambda>c. ebind (deref c (m_pg_tablespace c)) (\<lambda>t.
                 Inr (set_map db_oid (m_table_oid t) (m_pg_tablespace c) c)),
          \<lambda>c. ebind (deref c (m_pg_database c)) (\<lambda>t.
                 Inr (set_name_map db_oid ''pg_database'' (m_table_oid t) c)),
          \<lambda>c. ebind (deref c (m_pg_tablespace c)) (\<lambda>t.
                 Inr (set_name_map db_oid ''pg_tablespace'' (m_table_oid t) c)),
          CreatePGNameSpace txn db_oid,
          CreatePGClass txn db_oid] c"

text \<open>
  \<open>txn_manager_->Commit(txn, ...)\<close>: the commit timestamp is drawn, and every version the
  transaction wrote, in whichever table, is stamped with it.
\<close>

definition Catalog_Commit :: "timestamp_t \<Rightarrow> Catalog \<Rightarrow> Catalog" where
  "Catalog_Commit txn c =
     (let (commit_ts, tm) = Commit (m_txn_manager c)
      in c\<lparr>m_txn_manager := tm,
            heap := (\<lambda>p. map_option (\<lambda>t. t\<lparr>m_table := stamp_table txn commit_ts (m_table t)\<rparr>)
                                    (heap c p))\<rparr>)"

definition Bootstrap :: "oid_t \<Rightarrow> Catalog \<Rightarrow> error + Catalog" where
  "Bootstrap DEFAULT_DATABASE_OID c =
     (let (txn, tm) = BeginTransaction (m_txn_manager c) in
      seq [\<lambda>c. let (table_oid, c1) = GetNextOid c in CreatePGDatabase table_oid c1,
           PopulatePGDatabase DEFAULT_DATABASE_OID txn,
           \<lambda>c. let (table_oid, c1) = GetNextOid c in CreatePGTablespace table_oid c1,
           PopulatePGTablespace txn,
           BootstrapDatabase txn DEFAULT_DATABASE_OID,
           \<lambda>c. Inr (Catalog_Commit txn c)]
        (c\<lparr>m_txn_manager := tm\<rparr>))"

text \<open>
  The constructor \<open>Catalog::Catalog(txn_manager)\<close>. \<open>START_OID\<close> and
  \<open>DEFAULT_DATABASE_OID\<close> (\<open>catalog_defs.h\<close>) and the member initialiser
  \<open>pg_database_unused_cols_\<close> (\<open>catalog.h\<close>) are not among the sources and are parameters,
  as are the addresses the allocator will hand out.
\<close>

definition new_Catalog ::
    "TransactionManager \<Rightarrow> oid_t \<Rightarrow> oid_t \<Rightarrow> UnusedSchemaCols list \<Rightarrow> addr list \<Rightarrow> error + Catalog" where
  "new_Catalog txn_manager START_OID DEFAULT_DATABASE_OID unused_cols free =
     Bootstrap DEFAULT_DATABASE_OID
       \<lparr>m_txn_manager = txn_manager, m_oid = START_OID, m_pg_database = 0, m_pg_tablespace = 0,
        m_map = Map.empty, m_name_map = Map.empty, m_pg_database_unused_cols = unused_cols,
        heap = Map.empty, allocator = free\<rparr>"

subsection \<open>Destroying a database\<close>

fun DestroyDB_rows :: "oid_t \<Rightarrow> cell list list \<Rightarrow> Catalog \<Rightarrow> error + Catalog" where
  "DestroyDB_rows pg_catalog_oid [] c = Inr c"
| "DestroyDB_rows pg_catalog_oid (row # rows) c =
     ebind (AccessInt 3 row) (\<lambda>nsp_oid.
     ebind (if nsp_oid \<noteq> pg_catalog_oid
            then ebind (AccessBigint 0 row) (\<lambda>ptr. delete ptr c)
            else Inr c)
       (DestroyDB_rows pg_catalog_oid rows))"

text \<open>
  \<open>Catalog::DestroyDB\<close>: one \<open>Scan\<close> from the first slot into a buffer of 100 tuples, then the
  loop over the \<open>NumTuples()\<close> rows of the buffer.
\<close>

definition DestroyDB :: "oid_t \<Rightarrow> Catalog \<Rightarrow> error + Catalog" where
  "DestroyDB oid c =
     (let (txn, tm) = BeginTransaction (m_txn_manager c);
          c1 = c\<lparr>m_txn_manager := tm\<rparr>
      in ebind (GetDatabaseCatalog c1 oid ''pg_class'') (\<lambda>pg_class.
         ebind (deref c1 pg_class) (\<lambda>pg_class_ptr.
         let (columns, it) = Scan txn 0 100 (m_table pg_class_ptr) in
         ebind (NameToOid c1 txn oid ''pg_catalog'') (\<lambda>pg_catalog_oid.
           DestroyDB_rows pg_catalog_oid (map snd columns) c1))))"

subsection \<open>The table handle\<close>

text \<open>
  \<open>TableHandle\<close> holds the oid of its namespace and pointers to the three catalog tables
  (the fields \<open>th_x\<close> are the members \<open>x_\<close>); its \<open>catalog_\<close> is the catalog state. A
  \<open>TableEntry\<close> is the value its constructor is given.
\<close>

record TableHandle =
  th_nsp_oid :: oid_t
  th_pg_class :: addr
  th_pg_namespace :: addr
  th_pg_tablespace :: addr

record TableEntry =
  te_name :: string
  te_txn :: timestamp_t
  te_pg_class :: addr
  te_pg_namespace :: addr
  te_pg_tablespace :: addr

definition GetTableEntry :: "TableHandle \<Rightarrow> Catalog \<Rightarrow> timestamp_t \<Rightarrow> string \<Rightarrow> error + TableEntry option" where
  "GetTableEntry h c txn name =
     ebind (deref c (th_pg_class h)) (\<lambda>pg_class.
     let row = FindRow txn 1 (VarcharCell (Some name)) pg_class in
     ebind (GetIntColInRow 2 row) (\<lambda>nsp_oid.
       if nsp_oid \<noteq> th_nsp_oid h then Inr None
       else Inr (Some \<lparr>te_name = name, te_txn = txn, te_pg_class = th_pg_class h,
                       te_pg_namespace = th_pg_namespace h,
                       te_pg_tablespace = th_pg_tablespace h\<rparr>)))"

text \<open>
  \<open>TableHandle::CreateTable\<close>. The local \<open>table\<close> is the only \<open>shared_ptr\<close> to the new
  object, so the object is destroyed when the function returns.
\<close>

definition CreateTable :: "TableHandle \<Rightarrow> timestamp_t \<Rightarrow> Column list \<Rightarrow> string \<Rightarrow> Catalog \<Rightarrow> error + Catalog" where
  "CreateTable h txn schema name c =
     (let (table_oid, c1) = GetNextOid c in
      ebind (make_shared table_oid c1) (\<lambda>(table, c2).
        seq (map (\<lambda>col. call table (DefineColumn (column_name col) (column_type col)
                                       (column_nullable col) (column_oid col))) schema @
             [call table Create,
              call (th_pg_class h) StartRow,
              \<lambda>c. ebind (deref c table) (\<lambda>t.
                     on_table (th_pg_class h) (SetIntColInRow 0 (m_table_oid t)) c),
              on_table (th_pg_class h) (SetVarcharColInRow 1 (Some name)),
              on_table (th_pg_class h) (SetIntColInRow 2 (th_nsp_oid h)),
              \<lambda>c. ebind (ebind (GetTablespaceEntry c txn ''pg_default'') GetTablespaceOid)
                     (\<lambda>tablespace_oid.
                        on_table (th_pg_class h) (SetIntColInRow 3 tablespace_oid) c),
              call (th_pg_class h) (EndRowAndInsert txn),
              delete table]) c2))"

section \<open>Updates, the log, checkpoints and recovery\<close>

text \<open>
  Modelled from the spec: \<open>update\<close> and \<open>abort\<close> on the MVCC table (\<open>data_table.h\<close> and
  \<open>transaction_manager.h\<close> are not among the sources). Section 4.1: \<open>update\<close> installs a new
  version at the head of the slot's chain, and fails if the head version's \<open>begin_ts\<close> is
  newer than the start timestamp of the transaction or belongs to a concurrent uncommitted
  writer. A slot the table does not have cannot be updated. Section 4.2: \<open>abort\<close> unwinds the
  versions the transaction installed (a slot it created stays, visible to nobody else).
\<close>

definition HasConflict :: "timestamp_t \<Rightarrow> 'v version list \<Rightarrow> bool" where
  "HasConflict txn vs =
     (case vs of
        [] \<Rightarrow> False
      | v # _ \<Rightarrow> (case begin_ts v of Uncommitted w \<Rightarrow> w \<noteq> txn | Committed c \<Rightarrow> txn < c))"

definition before_image :: "(nat \<times> 'v) list \<Rightarrow> 'v list \<Rightarrow> (nat \<times> 'v) list" where
  "before_image d row = map (\<lambda>(c, v). (c, row ! c)) (filter (\<lambda>(c, v). c < length row) d)"

definition Update :: "timestamp_t \<Rightarrow> nat \<Rightarrow> (nat \<times> 'v) list \<Rightarrow> 'v DataTable \<Rightarrow> bool \<times> 'v DataTable" where
  "Update txn slot d tbl =
     (if slot < length tbl \<and> \<not> HasConflict txn (chain (tbl ! slot))
      then (True,
            tbl[slot := Tuple (ApplyDelta d (current (tbl ! slot)))
                              (Version (Uncommitted txn)
                                 (Before (before_image d (current (tbl ! slot)))) #
                               chain (tbl ! slot))])
      else (False, tbl))"

fun unwind :: "timestamp_t \<Rightarrow> 'v list \<Rightarrow> 'v version list \<Rightarrow> 'v tuple" where
  "unwind txn img [] = Tuple img []"
| "unwind txn img (v # vs) =
     (if begin_ts v = Uncommitted txn
      then (case delta v of
              Created \<Rightarrow> Tuple img (v # vs)
            | Before d \<Rightarrow> unwind txn (ApplyDelta d img) vs)
      else Tuple img (v # vs))"

definition Abort :: "timestamp_t \<Rightarrow> 'v DataTable \<Rightarrow> 'v DataTable" where
  "Abort txn tbl = map (\<lambda>t. unwind txn (current t) (chain t)) tbl"

text \<open>
  Modelled from the spec: \<open>storage::SqlTable\<close> (\<open>sql_table.h\<close> is not among the sources), the
  MVCC table with its oid and schema (section 2). The fields \<open>st_x\<close> are its parts.
\<close>

record 'v SqlTable =
  st_oid :: oid_t
  st_schema :: "Column list"
  st_data :: "'v DataTable"

definition new_SqlTable :: "Column list \<Rightarrow> oid_t \<Rightarrow> 'v SqlTable" where
  "new_SqlTable schema oid = \<lparr>st_oid = oid, st_schema = schema, st_data = []\<rparr>"

text \<open>
  Modelled from the spec: the redo records of a transaction and the write-ahead log
  (\<open>log_manager.h\<close> and \<open>transaction_context.h\<close> are not among the sources). Sections 4.4
  and 6: a log record holds its kind, the begin and commit timestamps of its transaction,
  the table oid, the slot and the projected row (column numbers with values; the row of an
  insert lists every column in order); the last record of a transaction is a \<open>COMMIT\<close>
  record. \<open>serialize\<close> enqueues the records of a committing transaction, \<open>process\<close> drains
  the queue into the file. The length prefix and the byte encoding are left out: the model
  is the parsed file.
\<close>

datatype LogRecordType = INSERT | UPDATE | DELETE | COMMIT

record 'v RedoRecord =
  rr_kind :: LogRecordType
  rr_table_oid :: oid_t
  rr_slot :: nat
  rr_delta :: "(nat \<times> 'v) list"

record 'v TransactionContext =
  tc_start_ts :: timestamp_t
  tc_redo :: "'v RedoRecord list"

definition new_TransactionContext :: "timestamp_t \<Rightarrow> 'v TransactionContext" where
  "new_TransactionContext start_ts = \<lparr>tc_start_ts = start_ts, tc_redo = []\<rparr>"

text \<open>
  \<open>StageWrite(table, slot, initializer)\<close> followed by the copy of the row into the record.
  The kind is the one the log format records for the operation staged.
\<close>

definition StageWrite ::
    "LogRecordType \<Rightarrow> oid_t \<Rightarrow> nat \<Rightarrow> (nat \<times> 'v) list \<Rightarrow> 'v TransactionContext \<Rightarrow> 'v TransactionContext" where
  "StageWrite kind table_oid slot row txn =
     txn\<lparr>tc_redo := tc_redo txn @
            [\<lparr>rr_kind = kind, rr_table_oid = table_oid, rr_slot = slot, rr_delta = row\<rparr>]\<rparr>"

record 'v LogRecord =
  lr_kind :: LogRecordType
  lr_begin_ts :: timestamp_t
  lr_commit_ts :: timestamp_t
  lr_table_oid :: oid_t
  lr_slot :: nat
  lr_row :: "(nat \<times> 'v) list"

record 'v LogManager =
  lm_queue :: "'v LogRecord list"
  lm_file :: "'v LogRecord list"

definition new_LogManager :: "'v LogManager" where
  "new_LogManager = \<lparr>lm_queue = [], lm_file = []\<rparr>"

definition log_record :: "timestamp_t \<Rightarrow> timestamp_t \<Rightarrow> 'v RedoRecord \<Rightarrow> 'v LogRecord" where
  "log_record start_ts commit_ts r =
     \<lparr>lr_kind = rr_kind r, lr_begin_ts = start_ts, lr_commit_ts = commit_ts,
      lr_table_oid = rr_table_oid r, lr_slot = rr_slot r, lr_row = rr_delta r\<rparr>"

definition commit_record :: "timestamp_t \<Rightarrow> timestamp_t \<Rightarrow> 'v LogRecord" where
  "commit_record start_ts commit_ts =
     \<lparr>lr_kind = COMMIT, lr_begin_ts = start_ts, lr_commit_ts = commit_ts, lr_table_oid = 0,
      lr_slot = 0, lr_row = []\<rparr>"

definition serialize :: "timestamp_t \<Rightarrow> 'v TransactionContext \<Rightarrow> 'v LogManager \<Rightarrow> 'v LogManager" where
  "serialize commit_ts txn lm =
     lm\<lparr>lm_queue := lm_queue lm @ map (log_record (tc_start_ts txn) commit_ts) (tc_redo txn) @
                      [commit_record (tc_start_ts txn) commit_ts]\<rparr>"

definition LogManager_Process :: "'v LogManager \<Rightarrow> 'v LogManager" where
  "LogManager_Process lm = \<lparr>lm_queue = [], lm_file = lm_file lm @ lm_queue lm\<rparr>"

subsection \<open>The transaction test harness\<close>

text \<open>
  \<open>SqlLargeTransactionTestObject\<close> and \<open>SqlRandomWorkloadTransaction\<close> of
  \<open>sql_transaction_test_util.cpp\<close>. The fields \<open>tobj_x\<close> and \<open>rwt_x\<close> are the members \<open>x_\<close>;
  the table, the transaction manager and the log manager the test object points to are part
  of its state, \<open>LOGGING_DISABLED\<close> is \<open>None\<close>, and \<open>UINT64_MAX\<close> as commit time is
  \<open>None\<close>. What the random generator would choose is an argument.
\<close>

record 'v SqlLargeTransactionTestObject =
  tobj_table :: "'v SqlTable"
  tobj_txn_manager :: TransactionManager
  tobj_log_manager :: "'v LogManager option"
  tobj_bookkeeping :: bool

definition wal_on :: "'v SqlLargeTransactionTestObject \<Rightarrow> bool" where
  "wal_on obj = (tobj_log_manager obj \<noteq> None)"

record 'v SqlRandomWorkloadTransaction =
  rwt_txn :: "'v TransactionContext"
  rwt_aborted :: bool
  rwt_start_time :: timestamp_t
  rwt_commit_time :: "timestamp_t option"
  rwt_updates :: "(nat \<times> (nat \<times> 'v) list) list"
  rwt_selects :: "(nat \<times> 'v list option) list"

definition new_SqlRandomWorkloadTransaction ::
    "'v SqlLargeTransactionTestObject \<Rightarrow> 'v SqlRandomWorkloadTransaction \<times> 'v SqlLargeTransactionTestObject" where
  "new_SqlRandomWorkloadTransaction obj =
     (let (start_ts, tm) = BeginTransaction (tobj_txn_manager obj)
      in (\<lparr>rwt_txn = new_TransactionContext start_ts, rwt_aborted = False,
           rwt_start_time = start_ts, rwt_commit_time = None, rwt_updates = [],
           rwt_selects = []\<rparr>,
          obj\<lparr>tobj_txn_manager := tm\<rparr>))"

definition RandomUpdate ::
    "nat \<Rightarrow> (nat \<times> 'v) list \<Rightarrow> 'v SqlRandomWorkloadTransaction \<times> 'v SqlLargeTransactionTestObject
      \<Rightarrow> 'v SqlRandomWorkloadTransaction \<times> 'v SqlLargeTransactionTestObject" where
  "RandomUpdate updated update = (\<lambda>(w, obj).
     if rwt_aborted w then (w, obj)
     else if tobj_bookkeeping obj \<and> map_of (rwt_updates w) updated \<noteq> None then (w, obj)
     else
       (let w1 = (if tobj_bookkeeping obj
                  then w\<lparr>rwt_updates := (updated, update) # rwt_updates w\<rparr> else w);
            w2 = (if wal_on obj \<or> tobj_bookkeeping obj
                  then w1\<lparr>rwt_txn := StageWrite UPDATE (st_oid (tobj_table obj)) updated update
                                        (rwt_txn w1)\<rparr>
                  else w1);
            (result, data) = Update (tc_start_ts (rwt_txn w2)) updated update
                               (st_data (tobj_table obj))
        in (w2\<lparr>rwt_aborted := \<not> result\<rparr>,
            obj\<lparr>tobj_table := (tobj_table obj)\<lparr>st_data := data\<rparr>\<rparr>)))"

definition RandomSelect ::
    "nat \<Rightarrow> 'v SqlRandomWorkloadTransaction \<times> 'v SqlLargeTransactionTestObject
      \<Rightarrow> 'v SqlRandomWorkloadTransaction \<times> 'v SqlLargeTransactionTestObject" where
  "RandomSelect selected = (\<lambda>(w, obj).
     if rwt_aborted w then (w, obj)
     else
       (let select = (if selected < length (st_data (tobj_table obj))
                      then Select (tc_start_ts (rwt_txn w)) (st_data (tobj_table obj) ! selected)
                      else None)
        in if tobj_bookkeeping obj \<and> map_of (rwt_updates w) selected = None
           then (w\<lparr>rwt_selects := rwt_selects w @ [(selected, select)]\<rparr>, obj)
           else (w, obj)))"

text \<open>
  \<open>txn_manager_.Commit(txn, ...)\<close> of a transaction manager with a log manager: the commit
  timestamp is drawn, the versions of the transaction in the table are stamped, and its
  redo records are handed to the log manager.
\<close>

definition Finish ::
    "'v SqlRandomWorkloadTransaction \<times> 'v SqlLargeTransactionTestObject
      \<Rightarrow> 'v SqlRandomWorkloadTransaction \<times> 'v SqlLargeTransactionTestObject" where
  "Finish = (\<lambda>(w, obj).
     if rwt_aborted w
     then (w, obj\<lparr>tobj_table := (tobj_table obj)
                    \<lparr>st_data := Abort (tc_start_ts (rwt_txn w)) (st_data (tobj_table obj))\<rparr>\<rparr>)
     else
       (let (commit_ts, tm) = Commit (tobj_txn_manager obj)
        in (w\<lparr>rwt_commit_time := Some commit_ts\<rparr>,
            obj\<lparr>tobj_txn_manager := tm,
                tobj_table := (tobj_table obj)
                  \<lparr>st_data := stamp_table (tc_start_ts (rwt_txn w)) commit_ts
                                (st_data (tobj_table obj))\<rparr>,
                tobj_log_manager := map_option (serialize commit_ts (rwt_txn w))
                                      (tobj_log_manager obj)\<rparr>)))"

text \<open>The operations \<open>SimulateOneTransaction\<close> draws: an update or a select.\<close>

datatype 'v workload_op = DoUpdate nat "(nat \<times> 'v) list" | DoSelect nat

fun run_op ::
    "'v workload_op \<Rightarrow> 'v SqlRandomWorkloadTransaction \<times> 'v SqlLargeTransactionTestObject
      \<Rightarrow> 'v SqlRandomWorkloadTransaction \<times> 'v SqlLargeTransactionTestObject" where
  "run_op (DoUpdate updated update) s = RandomUpdate updated update s"
| "run_op (DoSelect selected) s = RandomSelect selected s"

definition SimulateOneTransaction ::
    "'v workload_op list \<Rightarrow> 'v SqlLargeTransactionTestObject
      \<Rightarrow> 'v SqlRandomWorkloadTransaction \<times> 'v SqlLargeTransactionTestObject" where
  "SimulateOneTransaction ops obj = Finish (fold run_op ops (new_SqlRandomWorkloadTransaction obj))"

text \<open>
  \<open>SimulateOltp\<close> with the transactions run one after the other; the result lists the
  transactions in the order they ran.
\<close>

fun SimulateOltp ::
    "'v workload_op list list \<Rightarrow> 'v SqlLargeTransactionTestObject
      \<Rightarrow> 'v SqlRandomWorkloadTransaction list \<times> 'v SqlLargeTransactionTestObject" where
  "SimulateOltp [] obj = ([], obj)"
| "SimulateOltp (ops # txns) obj =
     (let (w, obj1) = SimulateOneTransaction ops obj;
          (ws, obj2) = SimulateOltp txns obj1
      in (w # ws, obj2))"

text \<open>The projected row of all the columns of a row, and the row it stands for.\<close>

definition all_columns :: "'v list \<Rightarrow> (nat \<times> 'v) list" where
  "all_columns row = zip [0..<length row] row"

definition row_of :: "(nat \<times> 'v) list \<Rightarrow> 'v list" where
  "row_of projected = map snd projected"

fun PopulateInitialTable_rows ::
    "'v list list \<Rightarrow> 'v TransactionContext \<times> 'v SqlLargeTransactionTestObject
      \<Rightarrow> 'v TransactionContext \<times> 'v SqlLargeTransactionTestObject" where
  "PopulateInitialTable_rows [] s = s"
| "PopulateInitialTable_rows (redo # rows) (initial_txn, obj) =
     (let (inserted, data) = Insert (tc_start_ts initial_txn) redo (st_data (tobj_table obj));
          obj1 = obj\<lparr>tobj_table := (tobj_table obj)\<lparr>st_data := data\<rparr>\<rparr>;
          txn1 = (if wal_on obj \<or> tobj_bookkeeping obj
                  then StageWrite INSERT (st_oid (tobj_table obj)) inserted (all_columns redo)
                         initial_txn
                  else initial_txn)
      in PopulateInitialTable_rows rows (txn1, obj1))"

definition PopulateInitialTable ::
    "'v list list \<Rightarrow> 'v SqlLargeTransactionTestObject \<Rightarrow> 'v SqlLargeTransactionTestObject" where
  "PopulateInitialTable rows obj =
     (let (start_ts, tm) = BeginTransaction (tobj_txn_manager obj);
          (initial_txn, obj1) =
             PopulateInitialTable_rows rows
               (new_TransactionContext start_ts, obj\<lparr>tobj_txn_manager := tm\<rparr>);
          (commit_ts, tm1) = Commit (tobj_txn_manager obj1)
      in obj1\<lparr>tobj_txn_manager := tm1,
              tobj_table := (tobj_table obj1)
                \<lparr>st_data := stamp_table start_ts commit_ts (st_data (tobj_table obj1))\<rparr>,
              tobj_log_manager := map_option (serialize commit_ts initial_txn)
                                    (tobj_log_manager obj1)\<rparr>)"

text \<open>
  The constructor of the test object: the table is created with oid 0 and populated. The
  random schema is an argument.
\<close>

definition new_SqlLargeTransactionTestObject ::
    "Column list \<Rightarrow> 'v list list \<Rightarrow> TransactionManager \<Rightarrow> 'v LogManager option \<Rightarrow> bool
      \<Rightarrow> 'v SqlLargeTransactionTestObject" where
  "new_SqlLargeTransactionTestObject schema initial_rows txn_manager log_manager bookkeeping =
     PopulateInitialTable initial_rows
       \<lparr>tobj_table = new_SqlTable schema 0, tobj_txn_manager = txn_manager,
        tobj_log_manager = log_manager, tobj_bookkeeping = bookkeeping\<rparr>"

subsection \<open>Reading a table back\<close>

lemma scan_slots_mono: "it \<le> snd (scan_slots txn max_tuples it ts)"
proof (induction ts arbitrary: max_tuples it)
  case Nil
  show ?case by simp
next
  case (Cons t ts)
  show ?case
  proof (cases "Select txn t")
    case None
    with Cons.IH [of "it + 1" max_tuples] show ?thesis by simp
  next
    case (Some row)
    with Cons.IH [of "it + 1" "max_tuples - 1"] show ?thesis
      by (auto split: prod.splits)
  qed
qed

lemma scan_slots_advances:
  "ts \<noteq> [] \<Longrightarrow> 0 < max_tuples \<Longrightarrow> it < snd (scan_slots txn max_tuples it ts)"
proof (cases ts)
  case Nil
  assume "ts \<noteq> []"
  with Nil show ?thesis by simp
next
  case (Cons t ts')
  assume m: "0 < max_tuples"
  show ?thesis
  proof (cases "Select txn t")
    case None
    with Cons m scan_slots_mono [of "it + 1" txn max_tuples ts'] show ?thesis by simp
  next
    case (Some row)
    with Cons m scan_slots_mono [of "it + 1" txn "max_tuples - 1" ts'] show ?thesis
      by (auto split: prod.splits)
  qed
qed

text \<open>
  \<open>StorageTestUtil::PrintAllRows\<close>: scans of 100 tuples until the iterator reaches the end;
  a printed row is the row.
\<close>

function PrintAllRows_from :: "timestamp_t \<Rightarrow> nat \<Rightarrow> 'v DataTable \<Rightarrow> 'v list list" where
  "PrintAllRows_from txn it tbl =
     (if it < length tbl
      then (let (columns, it') = Scan txn it 100 tbl
            in map snd columns @ PrintAllRows_from txn it' tbl)
      else [])"
  by pat_completeness auto
termination
proof (relation "measure (\<lambda>(txn, it, tbl). length tbl - it)")
  show "wf (measure (\<lambda>(txn, it, tbl). length tbl - it))" by simp
next
  fix txn :: timestamp_t and it :: nat and tbl :: "'v DataTable" and x :: "(nat \<times> 'v list) list \<times> nat"
    and columns :: "(nat \<times> 'v list) list" and it' :: nat
  assume lt: "it < length tbl" and x: "x = Scan txn it 100 tbl" and c: "(columns, it') = x"
  from lt have "drop it tbl \<noteq> []" by simp
  from scan_slots_advances [OF this, of 100 it txn] x c have "it < it'"
    by (simp add: Scan_def split: prod.splits) (metis snd_conv)
  with lt show "((txn, it', tbl), (txn, it, tbl)) \<in> measure (\<lambda>(txn, it, tbl). length tbl - it)"
    by simp
qed

declare PrintAllRows_from.simps [simp del]

definition PrintAllRows :: "timestamp_t \<Rightarrow> 'v SqlTable \<Rightarrow> 'v list list" where
  "PrintAllRows txn table = PrintAllRows_from txn 0 (st_data table)"

subsection \<open>The checkpoint manager\<close>

text \<open>
  Modelled from the spec: the checkpoint file and \<open>storage::CheckpointManager\<close>
  (\<open>checkpoint_manager.h\<close> is not among the sources). Section 6: the file has a header with
  the checkpoint timestamp and the number of tables, and for each table a section with the
  table oid, the schema fingerprint, the tuple count and the tuple records (slot and row).
  Magic numbers, version, CRC and byte encoding are left out: the model is the parsed file,
  and the fingerprint of a schema is the schema. Section 4.5: \<open>Process\<close> records the start
  timestamp of its transaction as the checkpoint timestamp and scans the table with that
  transaction; \<open>Recover\<close> reads the tuples into the registered tables and rejects an oid
  that is not registered; \<open>RecoverFromLogs\<close> discards the records with
  \<open>commit_ts \<le> T_ckpt\<close> and applies the rest in file order. Recovery remembers which slot
  of the recovered table stands for which slot of the original.
\<close>

record 'v table_section =
  sec_table_oid :: oid_t
  sec_schema_fingerprint :: "Column list"
  sec_tuple_count :: nat
  sec_tuples :: "(nat \<times> 'v list) list"

record 'v checkpoint_file =
  hdr_checkpoint_ts :: timestamp_t
  hdr_table_count :: nat
  sections :: "'v table_section list"

function scan_table :: "timestamp_t \<Rightarrow> nat \<Rightarrow> 'v DataTable \<Rightarrow> (nat \<times> 'v list) list" where
  "scan_table txn it tbl =
     (if it < length tbl
      then (let (columns, it') = Scan txn it 100 tbl in columns @ scan_table txn it' tbl)
      else [])"
  by pat_completeness auto
termination
proof (relation "measure (\<lambda>(txn, it, tbl). length tbl - it)")
  show "wf (measure (\<lambda>(txn, it, tbl). length tbl - it))" by simp
next
  fix txn :: timestamp_t and it :: nat and tbl :: "'v DataTable" and x :: "(nat \<times> 'v list) list \<times> nat"
    and columns :: "(nat \<times> 'v list) list" and it' :: nat
  assume lt: "it < length tbl" and x: "x = Scan txn it 100 tbl" and c: "(columns, it') = x"
  from lt have "drop it tbl \<noteq> []" by simp
  from scan_slots_advances [OF this, of 100 it txn] x c have "it < it'"
    by (simp add: Scan_def split: prod.splits) (metis snd_conv)
  with lt show "((txn, it', tbl), (txn, it, tbl)) \<in> measure (\<lambda>(txn, it, tbl). length tbl - it)"
    by simp
qed

declare scan_table.simps [simp del]

definition Process :: "timestamp_t \<Rightarrow> 'v SqlTable \<Rightarrow> 'v checkpoint_file" where
  "Process txn table =
     (let tuples = scan_table txn 0 (st_data table)
      in \<lparr>hdr_checkpoint_ts = txn, hdr_table_count = 1,
          sections = [\<lparr>sec_table_oid = st_oid table, sec_schema_fingerprint = st_schema table,
                        sec_tuple_count = length tuples, sec_tuples = tuples\<rparr>]\<rparr>)"

record 'v CheckpointManager =
  cm_txn :: timestamp_t
  cm_tables :: "(oid_t \<times> 'v SqlTable) list"
  cm_slot_map :: "((oid_t \<times> nat) \<times> nat) list"

definition StartRecovery :: "timestamp_t \<Rightarrow> 'v CheckpointManager" where
  "StartRecovery txn = \<lparr>cm_txn = txn, cm_tables = [], cm_slot_map = []\<rparr>"

definition RegisterTable :: "'v SqlTable \<Rightarrow> 'v CheckpointManager \<Rightarrow> 'v CheckpointManager" where
  "RegisterTable table cm = cm\<lparr>cm_tables := (st_oid table, table) # cm_tables cm\<rparr>"

definition registered :: "'v CheckpointManager \<Rightarrow> oid_t \<Rightarrow> error + 'v SqlTable" where
  "registered cm oid =
     (case map_of (cm_tables cm) oid of None \<Rightarrow> Inl UnregisteredTable | Some table \<Rightarrow> Inr table)"

definition set_table :: "'v SqlTable \<Rightarrow> 'v CheckpointManager \<Rightarrow> 'v CheckpointManager" where
  "set_table table cm =
     cm\<lparr>cm_tables := map (\<lambda>(oid, t). if oid = st_oid table then (oid, table) else (oid, t))
                          (cm_tables cm)\<rparr>"

text \<open>A tuple is inserted into the table registered for \<open>oid\<close>, and its new slot remembered.\<close>

definition recover_tuple ::
    "oid_t \<Rightarrow> nat \<Rightarrow> 'v list \<Rightarrow> 'v CheckpointManager \<Rightarrow> error + 'v CheckpointManager" where
  "recover_tuple oid slot row cm =
     ebind (registered cm oid) (\<lambda>table.
       let (new_slot, data) = Insert (cm_txn cm) row (st_data table)
       in Inr ((set_table (table\<lparr>st_data := data\<rparr>) cm)
                 \<lparr>cm_slot_map := ((oid, slot), new_slot) # cm_slot_map cm\<rparr>))"

definition recover_section :: "'v table_section \<Rightarrow> 'v CheckpointManager \<Rightarrow> error + 'v CheckpointManager" where
  "recover_section sec cm =
     ebind (registered cm (sec_table_oid sec)) (\<lambda>table.
       if st_schema table \<noteq> sec_schema_fingerprint sec then Inl SchemaMismatch
       else if sec_tuple_count sec \<noteq> length (sec_tuples sec) then Inl RecoveryCorrupt
       else seq (map (\<lambda>(slot, row). recover_tuple (sec_table_oid sec) slot row) (sec_tuples sec))
              cm)"

definition Recover :: "'v checkpoint_file \<Rightarrow> 'v CheckpointManager \<Rightarrow> error + 'v CheckpointManager" where
  "Recover file cm =
     (if hdr_table_count file \<noteq> length (sections file) then Inl RecoveryCorrupt
      else seq (map recover_section (sections file)) cm)"

definition replay :: "'v LogRecord \<Rightarrow> 'v CheckpointManager \<Rightarrow> error + 'v CheckpointManager" where
  "replay r cm =
     (case lr_kind r of
        INSERT \<Rightarrow> recover_tuple (lr_table_oid r) (lr_slot r) (row_of (lr_row r)) cm
      | UPDATE \<Rightarrow>
          ebind (registered cm (lr_table_oid r)) (\<lambda>table.
            case map_of (cm_slot_map cm) (lr_table_oid r, lr_slot r) of
              None \<Rightarrow> Inl RecoveryCorrupt
            | Some slot \<Rightarrow>
                (let (result, data) = Update (cm_txn cm) slot (lr_row r) (st_data table)
                 in if result then Inr (set_table (table\<lparr>st_data := data\<rparr>) cm)
                    else Inl RecoveryCorrupt))
      | DELETE \<Rightarrow> Inl NotImplemented
      | COMMIT \<Rightarrow> Inr cm)"

definition RecoverFromLogs ::
    "'v LogRecord list \<Rightarrow> timestamp_t \<Rightarrow> 'v CheckpointManager \<Rightarrow> error + 'v CheckpointManager" where
  "RecoverFromLogs log min_ts cm =
     seq (map (\<lambda>r cm. if lr_commit_ts r \<le> min_ts then Inr cm else replay r cm) log) cm"

text \<open>
  The recovery transaction commits: its versions in the registered tables are stamped.
\<close>

definition commit_recovery ::
    "'v CheckpointManager \<Rightarrow> TransactionManager \<Rightarrow> 'v CheckpointManager \<times> TransactionManager" where
  "commit_recovery cm tm =
     (let (commit_ts, tm1) = Commit tm
      in (cm\<lparr>cm_tables := map (\<lambda>(oid, t). (oid, t\<lparr>st_data := stamp_table (cm_txn cm) commit_ts
                                                                   (st_data t)\<rparr>))
                               (cm_tables cm)\<rparr>,
          tm1))"

subsection \<open>The recovery tests\<close>

text \<open>
  \<open>RandomSqlTableTestObject\<close> of \<open>storage_test_util.h\<close>: \<open>InsertRandomRows\<close> inserts the rows
  in one transaction and commits it, with logging disabled; the rows the generator would
  draw are an argument. A table may be populated by several such transactions.
\<close>

definition InsertRandomRows ::
    "'v list list \<Rightarrow> 'v SqlTable \<times> TransactionManager \<Rightarrow> 'v SqlTable \<times> TransactionManager" where
  "InsertRandomRows rows = (\<lambda>(table, txn_manager).
     let (txn, tm) = BeginTransaction txn_manager;
         data = fold (\<lambda>row data. snd (Insert txn row data)) rows (st_data table);
         (commit_ts, tm1) = Commit tm
     in (table\<lparr>st_data := stamp_table txn commit_ts data\<rparr>, tm1))"

text \<open>
  \<open>GenerateAndPopulateRandomTable\<close> on a fresh test object, whose \<open>table_oid_\<close> is 1.
\<close>

definition GenerateAndPopulateRandomTable ::
    "Column list \<Rightarrow> 'v list list list \<Rightarrow> TransactionManager \<Rightarrow> 'v SqlTable \<times> TransactionManager" where
  "GenerateAndPopulateRandomTable schema workload txn_manager =
     fold InsertRandomRows workload (new_SqlTable schema 1, txn_manager)"

text \<open>
  \<open>CheckpointTests::SimpleCheckpointRecoveryNoSeparateThread\<close>: the table is populated and
  checkpointed, its rows are printed, the checkpoint is recovered into a new table with oid
  1, and the rows of that table are printed. The result is the two lists the test compares.
\<close>

definition SimpleCheckpointRecovery ::
    "Column list \<Rightarrow> 'v list list list \<Rightarrow> TransactionManager \<Rightarrow> error + ('v list list \<times> 'v list list)" where
  "SimpleCheckpointRecovery schema workload txn_manager =
     (let (table, tm1) = GenerateAndPopulateRandomTable schema workload txn_manager;
          (txn, tm2) = BeginTransaction tm1;
          file = Process txn table;
          (commit_ts, tm3) = Commit tm2;
          (scan_txn, tm4) = BeginTransaction tm3;
          original_rows = PrintAllRows scan_txn table;
          (commit_ts1, tm5) = Commit tm4;
          (recovery_txn, tm6) = BeginTransaction tm5;
          recovered_table = new_SqlTable schema 1
      in ebind (Recover file (RegisterTable recovered_table (StartRecovery recovery_txn))) (\<lambda>cm.
           let (cm1, tm7) = commit_recovery cm tm6;
               (scan_txn_2, tm8) = BeginTransaction tm7
           in ebind (registered cm1 1) (\<lambda>recovered.
                Inr (original_rows, PrintAllRows scan_txn_2 recovered))))"

text \<open>
  A read-only transaction of the test (the checkpoint, a scan) commits through the
  transaction manager of the test object: the clock advances and, with logging on, its
  commit record is handed to the log manager.
\<close>

definition commit_read_only ::
    "timestamp_t \<Rightarrow> 'v SqlLargeTransactionTestObject \<Rightarrow> 'v SqlLargeTransactionTestObject" where
  "commit_read_only txn obj =
     (let (commit_ts, tm) = Commit (tobj_txn_manager obj)
      in obj\<lparr>tobj_txn_manager := tm,
             tobj_log_manager := map_option (serialize commit_ts (new_TransactionContext txn))
                                   (tobj_log_manager obj)\<rparr>)"

definition begin_read_only ::
    "'v SqlLargeTransactionTestObject \<Rightarrow> timestamp_t \<times> 'v SqlLargeTransactionTestObject" where
  "begin_read_only obj =
     (let (txn, tm) = BeginTransaction (tobj_txn_manager obj) in (txn, obj\<lparr>tobj_txn_manager := tm\<rparr>))"

definition flushed_log :: "'v SqlLargeTransactionTestObject \<Rightarrow> 'v LogRecord list" where
  "flushed_log obj =
     (case tobj_log_manager obj of None \<Rightarrow> [] | Some lm \<Rightarrow> lm_file (LogManager_Process lm))"

text \<open>
  \<open>CheckpointTests::SimpleCheckpointAndLogRecoveryNoVarlen\<close>, with transactions also before
  the checkpoint: the test object is built with a log manager and populated, transactions
  run, the table is checkpointed, more transactions run, the log is flushed and the rows are
  printed; the checkpoint is recovered into a new table with oid 0, the log is replayed
  from the timestamp of the checkpoint, and the rows of that table are printed.
\<close>

definition SimpleCheckpointAndLogRecovery ::
    "Column list \<Rightarrow> 'v list list \<Rightarrow> 'v workload_op list list \<Rightarrow> 'v workload_op list list \<Rightarrow>
      TransactionManager \<Rightarrow> bool \<Rightarrow> error + ('v list list \<times> 'v list list)" where
  "SimpleCheckpointAndLogRecovery schema initial_rows before after txn_manager bookkeeping =
     (let tested = new_SqlLargeTransactionTestObject schema initial_rows txn_manager
                     (Some new_LogManager) bookkeeping;
          (result1, tested1) = SimulateOltp before tested;
          (txn, tested2) = begin_read_only tested1;
          file = Process txn (tobj_table tested2);
          tested3 = commit_read_only txn tested2;
          (result2, tested4) = SimulateOltp after tested3;
          log = flushed_log tested4;
          (scan_txn, tested5) = begin_read_only tested4;
          original_rows = PrintAllRows scan_txn (tobj_table tested5);
          tested6 = commit_read_only scan_txn tested5;
          (recovery_txn, tested7) = begin_read_only tested6;
          recovered_table = new_SqlTable schema 0
      in ebind (Recover file (RegisterTable recovered_table (StartRecovery recovery_txn))) (\<lambda>cm.
         ebind (RecoverFromLogs log (hdr_checkpoint_ts file) cm) (\<lambda>cm1.
           let (cm2, tm) = commit_recovery cm1 (tobj_txn_manager tested7);
               (scan_txn_2, tm1) = BeginTransaction tm
           in ebind (registered cm2 0) (\<lambda>recovered.
                Inr (original_rows, PrintAllRows scan_txn_2 recovered)))))"

text \<open>
  \<open>CheckpointTests::SimpleRecoveryWithVarlenOnlyFromLogs\<close>: no checkpoint is taken, and the
  whole log is replayed from timestamp 0 into a new table with oid 0.
\<close>

definition SimpleRecoveryOnlyFromLogs ::
    "Column list \<Rightarrow> 'v list list \<Rightarrow> 'v workload_op list list \<Rightarrow> TransactionManager \<Rightarrow> bool
      \<Rightarrow> error + ('v list list \<times> 'v list list)" where
  "SimpleRecoveryOnlyFromLogs schema initial_rows txns txn_manager bookkeeping =
     (let tested = new_SqlLargeTransactionTestObject schema initial_rows txn_manager
                     (Some new_LogManager) bookkeeping;
          (result, tested1) = SimulateOltp txns tested;
          log = flushed_log tested1;
          (scan_txn, tested2) = begin_read_only tested1;
          original_rows = PrintAllRows scan_txn (tobj_table tested2);
          tested3 = commit_read_only scan_txn tested2;
          (recovery_txn, tested4) = begin_read_only tested3;
          recovered_table = new_SqlTable schema 0
      in ebind (RecoverFromLogs log 0 (RegisterTable recovered_table (StartRecovery recovery_txn)))
           (\<lambda>cm.
             let (cm1, tm) = commit_recovery cm (tobj_txn_manager tested4);
                 (scan_txn_2, tm1) = BeginTransaction tm
             in ebind (registered cm1 0) (\<lambda>recovered.
                  Inr (original_rows, PrintAllRows scan_txn_2 recovered))))"

section \<open>Definitions used to state the properties of the catalog\<close>

text \<open>
  The net effect of the two loops over \<open>pg_database_unused_cols_\<close>: the columns they define,
  with consecutive oids from \<open>oid\<close>, and the attributes they set in the row under
  construction.
\<close>

fun unused_columns :: "oid_t \<Rightarrow> UnusedSchemaCols list \<Rightarrow> Column list" where
  "unused_columns oid [] = []"
| "unused_columns oid (col # cols) =
     \<lparr>column_name = col_name col, column_type = type_id col, column_nullable = False,
      column_oid = oid\<rparr> # unused_columns (oid + 1) cols"

fun unused_cells :: "UnusedSchemaCols list \<Rightarrow> cell list \<Rightarrow> cell list" where
  "unused_cells [] row = row"
| "unused_cells (col # cols) row =
     unused_cells cols
       (case type_id col of
          INTEGER \<Rightarrow> row[col_num col := IntCell 0]
        | VARCHAR \<Rightarrow> row[col_num col := VarcharCell None]
        | _ \<Rightarrow> row)"

text \<open>
  What the bootstrap needs of \<open>pg_database_unused_cols_\<close>: every type is one that
  \<open>SetUnusedSchemaColumns\<close> handles, and every column number is a column of \<open>pg_database\<close>
  (the two named columns and the unused ones).
\<close>

definition unused_cols_ok :: "UnusedSchemaCols list \<Rightarrow> bool" where
  "unused_cols_ok cols =
     list_all (\<lambda>col. (type_id col = BOOLEAN \<or> type_id col = INTEGER \<or> type_id col = VARCHAR) \<and>
                     col_num col < 2 + length cols) cols"

text \<open>Every tuple of the table was inserted by a transaction that committed at \<open>commit_ts\<close>.\<close>

definition committed_by :: "timestamp_t \<Rightarrow> SqlTableRW \<Rightarrow> bool" where
  "committed_by commit_ts t =
     list_all (\<lambda>tu. chain tu = [Version (Committed commit_ts) Created]) (m_table t)"

text \<open>The current images of the tuples of the table at an address, in slot order.\<close>

definition table_rows :: "Catalog \<Rightarrow> addr \<Rightarrow> cell list list option" where
  "table_rows c p = map_option (\<lambda>t. map current (m_table t)) (heap c p)"

text \<open>The rows of \<open>pg_class\<close> of a database that a transaction sees.\<close>

definition pg_class_rows :: "Catalog \<Rightarrow> timestamp_t \<Rightarrow> oid_t \<Rightarrow> error + cell list list" where
  "pg_class_rows c txn db_oid =
     ebind (GetDatabaseCatalog c db_oid ''pg_class'') (\<lambda>p.
     ebind (deref c p) (\<lambda>t. Inr (visible_rows txn (m_table t))))"

definition cell_at :: "cell list \<Rightarrow> nat \<Rightarrow> cell" where
  "cell_at row i = (if i < length row then row ! i else Unset)"

definition rows_of_relname :: "cell list list \<Rightarrow> string \<Rightarrow> cell list list" where
  "rows_of_relname rows relname = filter (\<lambda>row. cell_at row 2 = VarcharCell (Some relname)) rows"

text \<open>
  The state of the catalog after the bootstrap, for \<open>n\<close> unused columns and the four
  addresses the allocator handed out.
\<close>

definition bootstrap_post ::
    "TransactionManager \<Rightarrow> oid_t \<Rightarrow> oid_t \<Rightarrow> nat \<Rightarrow> addr \<Rightarrow> addr \<Rightarrow> addr \<Rightarrow> addr \<Rightarrow> addr list
      \<Rightarrow> Catalog \<Rightarrow> bool" where
  "bootstrap_post tm S D n a1 a2 a3 a4 free c \<longleftrightarrow>
    m_txn_manager c = \<lparr>m_time = m_time tm + 2\<rparr> \<and>
    m_oid c = S + of_nat (2 * n + 19) \<and>
    m_pg_database c = a1 \<and> m_pg_tablespace c = a2 \<and> allocator c = free \<and>
    GetDatabaseCatalog c D ''pg_database'' = Inr a1 \<and>
    GetDatabaseCatalog c D ''pg_tablespace'' = Inr a2 \<and>
    GetDatabaseCatalog c D ''pg_namespace'' = Inr a3 \<and>
    GetDatabaseCatalog c D ''pg_class'' = Inr a4 \<and>
    map_option m_table_oid (heap c a1) = Some S \<and>
    map_option m_table_oid (heap c a2) = Some (S + of_nat (2 * n + 3)) \<and>
    map_option m_table_oid (heap c a3) = Some (S + of_nat (2 * n + 8)) \<and>
    map_option m_table_oid (heap c a4) = Some (S + of_nat (2 * n + 13)) \<and>
    map_option (committed_by (m_time tm + 1)) (heap c a1) = Some True \<and>
    map_option (committed_by (m_time tm + 1)) (heap c a2) = Some True \<and>
    map_option (committed_by (m_time tm + 1)) (heap c a3) = Some True \<and>
    map_option (committed_by (m_time tm + 1)) (heap c a4) = Some True \<and>
    map_option (\<lambda>t. length (m_table t)) (heap c a1) = Some 1 \<and>
    table_rows c a2 =
      Some [[IntCell (S + of_nat (2 * n + 6)), VarcharCell (Some ''pg_global'')],
            [IntCell (S + of_nat (2 * n + 7)), VarcharCell (Some ''pg_default'')]] \<and>
    table_rows c a3 =
      Some [[IntCell (S + of_nat (2 * n + 11)), VarcharCell (Some ''pg_catalog'')],
            [IntCell (S + of_nat (2 * n + 12)), VarcharCell (Some ''public'')]] \<and>
    table_rows c a4 =
      Some [[BigintCell a1, IntCell S, VarcharCell (Some ''pg_database''),
             IntCell (S + of_nat (2 * n + 11)), IntCell (S + of_nat (2 * n + 6))],
            [BigintCell a2, IntCell (S + of_nat (2 * n + 3)), VarcharCell (Some ''pg_tablespace''),
             IntCell (S + of_nat (2 * n + 11)), IntCell (S + of_nat (2 * n + 6))],
            [BigintCell a3, IntCell (S + of_nat (2 * n + 8)), VarcharCell (Some ''pg_namespace''),
             IntCell (S + of_nat (2 * n + 11)), IntCell (S + of_nat (2 * n + 7))],
            [BigintCell a4, IntCell (S + of_nat (2 * n + 13)), VarcharCell (Some ''pg_class''),
             IntCell (S + of_nat (2 * n + 11)), IntCell (S + of_nat (2 * n + 7))]] \<and>
    (\<forall>p. p \<notin> {a1, a2, a3, a4} \<longrightarrow> heap c p = None)"

subsection \<open>A concrete catalog\<close>

definition example_unused_cols :: "UnusedSchemaCols list" where
  "example_unused_cols =
     [\<lparr>col_num = 2, col_name = ''datdba'', type_id = INTEGER\<rparr>,
      \<lparr>col_num = 3, col_name = ''datcollate'', type_id = VARCHAR\<rparr>,
      \<lparr>col_num = 4, col_name = ''datistemplate'', type_id = BOOLEAN\<rparr>]"

definition example_catalog :: "error + Catalog" where
  "example_catalog =
     new_Catalog \<lparr>m_time = 0\<rparr> 1001 1 example_unused_cols [4096, 8192, 12288, 16384, 20480]"

definition example_handle :: TableHandle where
  "example_handle =
     \<lparr>th_nsp_oid = 1019, th_pg_class = 16384, th_pg_namespace = 12288, th_pg_tablespace = 8192\<rparr>"

definition example_schema :: "Column list" where
  "example_schema =
     [\<lparr>column_name = ''id'', column_type = INTEGER, column_nullable = False, column_oid = 0\<rparr>]"

definition example_CreateTable :: "error + Catalog" where
  "example_CreateTable =
     ebind example_catalog (\<lambda>c.
       let (txn, tm) = BeginTransaction (m_txn_manager c)
       in CreateTable example_handle txn example_schema ''t'' (c\<lparr>m_txn_manager := tm\<rparr>))"

text \<open>
  A database with \<open>k\<close> user tables: the bootstrapped catalog, and for each user table a live
  object and a committed \<open>pg_class\<close> row in the namespace \<open>public\<close>, laid out as
  \<open>CreatePGClass\<close> lays out its rows.
\<close>

definition example_user_row :: "nat \<Rightarrow> cell tuple" where
  "example_user_row i =
     Tuple [BigintCell (1048576 + of_nat i), IntCell (5000 + of_nat i),
            VarcharCell (Some ''user_table''), IntCell 1019, IntCell 1014]
           [Version (Committed 3) Created]"

definition example_user_tables :: "nat \<Rightarrow> error + Catalog" where
  "example_user_tables k =
     ebind example_catalog (\<lambda>c.
     ebind (deref c 16384) (\<lambda>pg_class.
       Inr (c\<lparr>m_txn_manager := \<lparr>m_time = 4\<rparr>,
              heap := (\<lambda>p. if 1048576 \<le> p \<and> p < 1048576 + of_nat k
                            then Some (new_SqlTableRW (5000 + ucast (p - 1048576)))
                            else if p = 16384
                            then Some (pg_class\<lparr>m_table := m_table pg_class @
                                                      map example_user_row [0..<k]\<rparr>)
                            else heap c p)\<rparr>)))"


section \<open>Definitions used to state the properties of recovery\<close>

text \<open>The current images of the tuples of a table, in slot order.\<close>

definition images :: "'v DataTable \<Rightarrow> 'v list list" where
  "images tbl = map current tbl"

text \<open>The head of the chain of a tuple is visible to a transaction (or there is no chain).\<close>

definition head_visible :: "timestamp_t \<Rightarrow> 'v tuple \<Rightarrow> bool" where
  "head_visible txn t = (case chain t of [] \<Rightarrow> True | v # _ \<Rightarrow> visible txn (begin_ts v))"

text \<open>
  Every tuple was last written by a transaction that committed before \<open>T\<close>: the table is
  at rest for every transaction that starts at \<open>T\<close> or later.
\<close>

definition quiescent :: "timestamp_t \<Rightarrow> 'v DataTable \<Rightarrow> bool" where
  "quiescent T tbl =
     list_all (\<lambda>t. case chain t of
                      [] \<Rightarrow> False
                    | v # _ \<Rightarrow> (case begin_ts v of Uncommitted w \<Rightarrow> False | Committed c \<Rightarrow> c < T))
       tbl"

text \<open>
  Every tuple was last written by the transaction \<open>txn\<close>, not yet committed, or by a
  transaction that committed before \<open>txn\<close> started.
\<close>

definition in_transaction :: "timestamp_t \<Rightarrow> 'v DataTable \<Rightarrow> bool" where
  "in_transaction txn tbl =
     list_all (\<lambda>t. case chain t of
                      [] \<Rightarrow> False
                    | v # _ \<Rightarrow> (case begin_ts v of Uncommitted w \<Rightarrow> w = txn | Committed c \<Rightarrow> c < txn))
       tbl"

text \<open>
  What a record that is redone does to the images of a table, and when it can be redone:
  an insert goes to the next slot, an update to a slot the table has.
\<close>

definition redo_images :: "LogRecordType \<Rightarrow> nat \<Rightarrow> (nat \<times> 'v) list \<Rightarrow> 'v list list \<Rightarrow> 'v list list" where
  "redo_images kind slot row imgs =
     (case kind of
        INSERT \<Rightarrow> imgs @ [row_of row]
      | UPDATE \<Rightarrow> imgs[slot := ApplyDelta row (imgs ! slot)]
      | _ \<Rightarrow> imgs)"

definition redo_ok :: "oid_t \<Rightarrow> LogRecordType \<Rightarrow> oid_t \<Rightarrow> nat \<Rightarrow> 'v list list \<Rightarrow> bool" where
  "redo_ok oid kind table_oid slot imgs =
     (case kind of
        INSERT \<Rightarrow> table_oid = oid \<and> slot = length imgs
      | UPDATE \<Rightarrow> table_oid = oid \<and> slot < length imgs
      | DELETE \<Rightarrow> False
      | COMMIT \<Rightarrow> True)"

fun log_images :: "'v LogRecord list \<Rightarrow> 'v list list \<Rightarrow> 'v list list" where
  "log_images [] imgs = imgs"
| "log_images (r # log) imgs = log_images log (redo_images (lr_kind r) (lr_slot r) (lr_row r) imgs)"

fun log_ok :: "oid_t \<Rightarrow> 'v LogRecord list \<Rightarrow> 'v list list \<Rightarrow> bool" where
  "log_ok oid [] imgs = True"
| "log_ok oid (r # log) imgs =
     (redo_ok oid (lr_kind r) (lr_table_oid r) (lr_slot r) imgs \<and>
      log_ok oid log (redo_images (lr_kind r) (lr_slot r) (lr_row r) imgs))"

text \<open>The records the log manager holds, flushed or not, in order.\<close>

definition log_of :: "'v LogManager \<Rightarrow> 'v LogRecord list" where
  "log_of lm = lm_file lm @ lm_queue lm"

text \<open>
  The state of the recovery between two steps: one table is registered, under \<open>oid\<close>; its
  images are \<open>imgs\<close>; every tuple was last written by the recovery transaction; every slot
  of the table stands for the same slot of the original.
\<close>

definition recovering :: "oid_t \<Rightarrow> Column list \<Rightarrow> 'v list list \<Rightarrow> 'v CheckpointManager \<Rightarrow> bool" where
  "recovering oid schema imgs cm \<longleftrightarrow>
     (\<exists>data. cm_tables cm = [(oid, \<lparr>st_oid = oid, st_schema = schema, st_data = data\<rparr>)] \<and>
        images data = imgs \<and>
        list_all (\<lambda>t. case chain t of [] \<Rightarrow> False | v # _ \<Rightarrow> begin_ts v = Uncommitted (cm_txn cm))
          data \<and>
        (\<forall>i < length imgs. map_of (cm_slot_map cm) (oid, i) = Some i))"

text \<open>
  The state of the test object between two transactions: logging is on; the table is at
  rest; the log can be redone from the empty table and gives the images of the table; the
  commit timestamps in the log are positive and before the clock.
\<close>

definition at_rest :: "'v SqlLargeTransactionTestObject \<Rightarrow> bool" where
  "at_rest obj \<longleftrightarrow>
     (\<exists>lm. tobj_log_manager obj = Some lm \<and>
        quiescent (m_time (tobj_txn_manager obj)) (st_data (tobj_table obj)) \<and>
        log_ok (st_oid (tobj_table obj)) (log_of lm) [] \<and>
        log_images (log_of lm) [] = images (st_data (tobj_table obj)) \<and>
        (\<forall>r \<in> set (log_of lm). 0 < lr_commit_ts r \<and> lr_commit_ts r < m_time (tobj_txn_manager obj)))"

text \<open>
  What a step of the test does to the test object: the clock does not go back, the table
  keeps its oid and schema, and the log grows by records that commit after the clock of the
  state before.
\<close>

definition step_of :: "'v SqlLargeTransactionTestObject \<Rightarrow> 'v SqlLargeTransactionTestObject \<Rightarrow> bool" where
  "step_of obj obj' \<longleftrightarrow>
     m_time (tobj_txn_manager obj) \<le> m_time (tobj_txn_manager obj') \<and>
     st_oid (tobj_table obj') = st_oid (tobj_table obj) \<and>
     st_schema (tobj_table obj') = st_schema (tobj_table obj) \<and>
     tobj_bookkeeping obj' = tobj_bookkeeping obj \<and>
     (\<exists>lm lm' ext. tobj_log_manager obj = Some lm \<and> tobj_log_manager obj' = Some lm' \<and>
        log_of lm' = log_of lm @ ext \<and>
        (\<forall>r \<in> set ext. m_time (tobj_txn_manager obj) < lr_commit_ts r))"

section \<open>Basic facts\<close>

lemma ebind_Inr [simp]: "ebind (Inr x) f = f x"
  by (simp add: ebind_def)

lemma ebind_Inl [simp]: "ebind (Inl e) f = Inl e"
  by (simp add: ebind_def)


section \<open>Properties of the catalog\<close>

subsection \<open>Sequencing and the loops over the unused columns\<close>

lemma on_table_Some: "heap c p = Some t \<Longrightarrow>
  on_table p f c = ebind (f t) (\<lambda>t'. Inr (c\<lparr>heap := (heap c)(p \<mapsto> t')\<rparr>))"
  by (simp add: on_table_def deref_def)

lemma call_Some: "heap c p = Some t \<Longrightarrow> call p f c = Inr (c\<lparr>heap := (heap c)(p \<mapsto> f t)\<rparr>)"
  by (simp add: call_def on_table_Some)

lemma DefineColumn_GetNextOid_Some: "heap c p = Some t \<Longrightarrow>
  DefineColumn_GetNextOid p name ty c =
    Inr (c\<lparr>m_oid := m_oid c + 1, heap := (heap c)(p \<mapsto> DefineColumn name ty False (m_oid c) t)\<rparr>)"
  by (simp add: DefineColumn_GetNextOid_def GetNextOid_def call_Some)

lemma length_unused_columns [simp]: "length (unused_columns oid cols) = length cols"
  by (induction cols arbitrary: oid) simp_all

lemma length_unused_cells [simp]: "length (unused_cells cols row) = length row"
  by (induction cols arbitrary: row) (simp_all split: TypeId.splits)

lemma AddUnusedSchemaColumns_result:
  "heap c p = Some t \<Longrightarrow>
   AddUnusedSchemaColumns p cols c =
     Inr (c\<lparr>m_oid := m_oid c + of_nat (length cols),
            heap := (heap c)(p \<mapsto> t\<lparr>m_cols := m_cols t @ unused_columns (m_oid c) cols\<rparr>)\<rparr>)"
proof (induction cols arbitrary: c t)
  case Nil
  then show ?case by (simp add: map_upd_triv)
next
  case (Cons col cols)
  let ?t1 = "DefineColumn (col_name col) (type_id col) False (m_oid c) t"
  let ?c1 = "c\<lparr>m_oid := m_oid c + 1, heap := (heap c)(p \<mapsto> ?t1)\<rparr>"
  have h1: "heap ?c1 p = Some ?t1" by simp
  have step: "AddUnusedSchemaColumns p (col # cols) c = AddUnusedSchemaColumns p cols ?c1"
    using Cons.prems by (simp add: DefineColumn_GetNextOid_Some)
  show ?case
    unfolding step Cons.IH [OF h1]
    by (simp only: sum.inject, rule Catalog.equality) (simp_all add: DefineColumn_def ac_simps)
qed

lemma SetUnusedSchemaColumns_result:
  "heap c p = Some t \<Longrightarrow>
   list_all (\<lambda>col. (type_id col = BOOLEAN \<or> type_id col = INTEGER \<or> type_id col = VARCHAR) \<and>
                   col_num col < length (m_insert t)) cols \<Longrightarrow>
   SetUnusedSchemaColumns p cols c =
     Inr (c\<lparr>m_oid := m_oid c + of_nat (length cols),
            heap := (heap c)(p \<mapsto> t\<lparr>m_cols := m_cols t @ unused_columns (m_oid c) cols,
                                     m_insert := unused_cells cols (m_insert t)\<rparr>)\<rparr>)"
proof (induction cols arbitrary: c t)
  case Nil
  then show ?case by (simp add: map_upd_triv)
next
  case (Cons col cols)
  let ?row = "case type_id col of
                INTEGER \<Rightarrow> (m_insert t)[col_num col := IntCell 0]
              | VARCHAR \<Rightarrow> (m_insert t)[col_num col := VarcharCell None]
              | _ \<Rightarrow> m_insert t"
  let ?t1 = "DefineColumn (col_name col) (type_id col) False (m_oid c) (t\<lparr>m_insert := ?row\<rparr>)"
  let ?c1 = "c\<lparr>m_oid := m_oid c + 1, heap := (heap c)(p \<mapsto> ?t1)\<rparr>"
  have h1: "heap ?c1 p = Some ?t1" by simp
  have ok: "list_all (\<lambda>col. (type_id col = BOOLEAN \<or> type_id col = INTEGER \<or> type_id col = VARCHAR) \<and>
                   col_num col < length (m_insert ?t1)) cols"
    using Cons.prems(2) by (auto simp: DefineColumn_def split: TypeId.splits)
  have step: "SetUnusedSchemaColumns p (col # cols) c = SetUnusedSchemaColumns p cols ?c1"
    using Cons.prems
    by (auto simp: DefineColumn_GetNextOid_Some on_table_Some SetIntColInRow_def
          SetVarcharColInRow_def SetColInRow_def map_upd_triv)
  show ?case
    unfolding step Cons.IH [OF h1 ok]
    by (simp only: sum.inject, rule Catalog.equality) (simp_all add: DefineColumn_def ac_simps)
qed


lemma AddUnusedSchemaColumns_the:
  "heap c p \<noteq> None \<Longrightarrow>
   AddUnusedSchemaColumns p cols c =
     Inr (c\<lparr>m_oid := m_oid c + of_nat (length cols),
            heap := (heap c)(p \<mapsto> (the (heap c p))\<lparr>m_cols := m_cols (the (heap c p)) @ unused_columns (m_oid c) cols\<rparr>)\<rparr>)"
  using AddUnusedSchemaColumns_result [of c p "the (heap c p)" cols] by auto

lemma SetUnusedSchemaColumns_the:
  "heap c p \<noteq> None \<Longrightarrow>
   list_all (\<lambda>col. (type_id col = BOOLEAN \<or> type_id col = INTEGER \<or> type_id col = VARCHAR) \<and>
                   col_num col < length (m_insert (the (heap c p)))) cols \<Longrightarrow>
   SetUnusedSchemaColumns p cols c =
     Inr (c\<lparr>m_oid := m_oid c + of_nat (length cols),
            heap := (heap c)(p \<mapsto> (the (heap c p))\<lparr>m_cols := m_cols (the (heap c p)) @ unused_columns (m_oid c) cols,
                                     m_insert := unused_cells cols (m_insert (the (heap c p)))\<rparr>)\<rparr>)"
  using SetUnusedSchemaColumns_result [of c p "the (heap c p)" cols] by auto

subsection \<open>The state after the bootstrap\<close>

text \<open>The definitions that a symbolic run of the bootstrap unfolds.\<close>

lemmas exec_defs = new_Catalog_def Bootstrap_def BeginTransaction_def GetNextOid_def
  CreatePGDatabase_def make_shared_def DefineColumn_GetNextOid_def call_def on_table_def deref_def
  PopulatePGDatabase_def CreatePGTablespace_def PopulatePGTablespace_def
  SetIntColInRow_def SetVarcharColInRow_def SetBigintColInRow_def SetColInRow_def
  StartRow_def Create_def EndRowAndInsert_def Insert_def DefineColumn_def new_SqlTableRW_def

lemmas exec_defs2 = BootstrapDatabase_def set_map_def set_name_map_def CreatePGNameSpace_def
  CreatePGClass_def CreatePGClass_insert_def GetDatabaseCatalog_def GetDatabaseCatalog_oid_def
  GetNamespaceEntry_def GetNamespaceOid_def GetTablespaceEntry_def GetTablespaceOid_def
  GetIntColInRow_def AccessInt_def FindRow_def visible_rows_def List.map_filter_simps Select_def
  Catalog_Commit_def Commit_def stamp_table_def stamp_version_def Let_def

lemma of_nat_word32_neq_0:
  "0 < k \<and> k < 2 ^ 32 \<longrightarrow> (of_nat k :: 32 word) \<noteq> 0"
proof (intro impI notI)
  assume "0 < k \<and> k < 2 ^ 32" and "(of_nat k :: 32 word) = 0"
  then have k: "0 < k" "k < 2 ^ 32" and "(of_nat k :: 32 word) = 0" by simp_all
  then have "(2::nat) ^ 32 dvd k"
    by (simp add: word_of_nat_eq_0_iff)
  with k(1) have "(2::nat) ^ 32 \<le> k"
    by (rule_tac dvd_imp_le)
  with k(2) show False by simp
qed

lemma oid_offsets_neq_0:
  assumes "2 * n + 19 < (2::nat) ^ 32"
  shows "(2 * of_nat n + 3 :: 32 word) \<noteq> 0" "(8 + 2 * of_nat n :: 32 word) \<noteq> 0"
    "(13 + 2 * of_nat n :: 32 word) \<noteq> 0"
proof -
  have "(of_nat (2 * n + 3) :: 32 word) \<noteq> 0" "(of_nat (8 + 2 * n) :: 32 word) \<noteq> 0"
    "(of_nat (13 + 2 * n) :: 32 word) \<noteq> 0"
    using assms by (simp_all add: of_nat_word32_neq_0 del: of_nat_add of_nat_mult)
  then show "(2 * of_nat n + 3 :: 32 word) \<noteq> 0" "(8 + 2 * of_nat n :: 32 word) \<noteq> 0"
    "(13 + 2 * of_nat n :: 32 word) \<noteq> 0"
    by simp_all
qed

lemma new_Catalog_state:
  assumes ok: "unused_cols_ok cols"
    and d: "distinct [a1, a2, a3, a4]"
    and b: "2 * length cols + 19 < 2 ^ 32"
  shows "\<exists>c. new_Catalog tm S D cols (a1 # a2 # a3 # a4 # free) = Inr c \<and>
             bootstrap_post tm S D (length cols) a1 a2 a3 a4 free c"
  unfolding bootstrap_post_def
  using ok d oid_offsets_neq_0 [OF b]
  by (simp add: exec_defs exec_defs2 AddUnusedSchemaColumns_the SetUnusedSchemaColumns_the
        unused_cols_ok_def committed_by_def table_rows_def)

lemma visible_rows_committed:
  "list_all (\<lambda>tu. chain tu = [Version (Committed commit_ts) Created]) tbl \<Longrightarrow> commit_ts < txn \<Longrightarrow>
   visible_rows txn tbl = map current tbl"
  by (induction tbl) (simp_all add: visible_rows_def List.map_filter_simps Select_def)

lemma unat_oid_offset:
  "unat S + k < 2 ^ 32 \<Longrightarrow> unat (S + of_nat k :: 32 word) = unat S + k"
  by (simp add: unat_word_ariths unat_of_nat)

subsection \<open>Catalog reflexivity\<close>

text \<open>
  Claim C6. After the bootstrap, a transaction that starts after the bootstrap transaction
  committed reads \<open>pg_class\<close> of the default database; for each of \<open>pg_database\<close>,
  \<open>pg_tablespace\<close>, \<open>pg_namespace\<close> and \<open>pg_class\<close> there is exactly one row with that
  \<open>relname\<close>, its \<open>__ptr\<close> (attribute 0) is the address of the live object the catalog holds
  for the table, and its \<open>oid\<close> (attribute 1) is the oid of that object. For \<open>pg_database\<close>
  and \<open>pg_tablespace\<close> that address is also the member \<open>pg_database_\<close> and
  \<open>pg_tablespace_\<close>. The unused columns are of the supported types, fewer than
  \<open>2\<^sup>3\<^sup>1\<close>, and the allocator returns four distinct addresses.
\<close>

theorem bootstrap_pg_class_ptr:
  assumes ok: "unused_cols_ok cols"
    and d: "distinct [a1, a2, a3, a4]"
    and b: "2 * length cols + 19 < 2 ^ 32"
    and txn: "m_time tm + 1 < txn"
  shows "\<exists>c rows. new_Catalog tm S D cols (a1 # a2 # a3 # a4 # free) = Inr c \<and>
           pg_class_rows c txn D = Inr rows \<and>
           (\<forall>relname \<in> set [''pg_database'', ''pg_tablespace'', ''pg_namespace'', ''pg_class''].
              \<exists>p t. GetDatabaseCatalog c D relname = Inr p \<and> heap c p = Some t \<and>
                    map (\<lambda>row. (cell_at row 0, cell_at row 1)) (rows_of_relname rows relname) =
                      [(BigintCell p, IntCell (m_table_oid t))]) \<and>
           GetDatabaseCatalog c D ''pg_database'' = Inr (m_pg_database c) \<and>
           GetDatabaseCatalog c D ''pg_tablespace'' = Inr (m_pg_tablespace c)"
proof -
  from new_Catalog_state [OF ok d b] obtain c where
    c: "new_Catalog tm S D cols (a1 # a2 # a3 # a4 # free) = Inr c"
    and post: "bootstrap_post tm S D (length cols) a1 a2 a3 a4 free c"
    by blast
  let ?n = "length cols"
  let ?rows = "[[BigintCell a1, IntCell S, VarcharCell (Some ''pg_database''),
             IntCell (S + of_nat (2 * ?n + 11)), IntCell (S + of_nat (2 * ?n + 6))],
            [BigintCell a2, IntCell (S + of_nat (2 * ?n + 3)), VarcharCell (Some ''pg_tablespace''),
             IntCell (S + of_nat (2 * ?n + 11)), IntCell (S + of_nat (2 * ?n + 6))],
            [BigintCell a3, IntCell (S + of_nat (2 * ?n + 8)), VarcharCell (Some ''pg_namespace''),
             IntCell (S + of_nat (2 * ?n + 11)), IntCell (S + of_nat (2 * ?n + 7))],
            [BigintCell a4, IntCell (S + of_nat (2 * ?n + 13)), VarcharCell (Some ''pg_class''),
             IntCell (S + of_nat (2 * ?n + 11)), IntCell (S + of_nat (2 * ?n + 7))]]"
  from post have po: "map_option m_table_oid (heap c a1) = Some S"
    "map_option m_table_oid (heap c a2) = Some (S + of_nat (2 * ?n + 3))"
    "map_option m_table_oid (heap c a3) = Some (S + of_nat (2 * ?n + 8))"
    "map_option m_table_oid (heap c a4) = Some (S + of_nat (2 * ?n + 13))"
    and pc: "map_option (committed_by (m_time tm + 1)) (heap c a4) = Some True"
    and pr: "table_rows c a4 = Some ?rows"
    unfolding bootstrap_post_def by simp_all
  from po(1) obtain t1 where t1: "heap c a1 = Some t1" "m_table_oid t1 = S" by auto
  from po(2) obtain t2 where t2: "heap c a2 = Some t2" "m_table_oid t2 = S + of_nat (2 * ?n + 3)"
    by auto
  from po(3) obtain t3 where t3: "heap c a3 = Some t3" "m_table_oid t3 = S + of_nat (2 * ?n + 8)"
    by auto
  from po(4) obtain t4 where t4: "heap c a4 = Some t4" "m_table_oid t4 = S + of_nat (2 * ?n + 13)"
    by auto
  note h = t1(1) t2(1) t3(1) t4(1) and oids = t1(2) t2(2) t3(2) t4(2)
  from pc pr t4(1) have cm: "committed_by (m_time tm + 1) t4"
    and r4: "map current (m_table t4) = ?rows"
    by (simp_all add: table_rows_def)
  from post have g: "GetDatabaseCatalog c D ''pg_database'' = Inr a1"
    "GetDatabaseCatalog c D ''pg_tablespace'' = Inr a2"
    "GetDatabaseCatalog c D ''pg_namespace'' = Inr a3"
    "GetDatabaseCatalog c D ''pg_class'' = Inr a4"
    and m: "m_pg_database c = a1" "m_pg_tablespace c = a2"
    unfolding bootstrap_post_def by simp_all
  have vis: "visible_rows txn (m_table t4) = ?rows"
    using visible_rows_committed [of "m_time tm + 1" "m_table t4" txn] cm txn r4
    by (simp add: committed_by_def)
  have rows: "pg_class_rows c txn D = Inr ?rows"
    by (simp add: pg_class_rows_def g deref_def h vis)
  have each: "\<forall>relname \<in> set [''pg_database'', ''pg_tablespace'', ''pg_namespace'', ''pg_class''].
              \<exists>p t. GetDatabaseCatalog c D relname = Inr p \<and> heap c p = Some t \<and>
                    map (\<lambda>row. (cell_at row 0, cell_at row 1)) (rows_of_relname ?rows relname) =
                      [(BigintCell p, IntCell (m_table_oid t))]"
    by (simp add: g h oids rows_of_relname_def cell_at_def)
  show ?thesis
    using c rows each g m by blast
qed


text \<open>The hypotheses of C6 hold for the concrete catalog, with the reader at timestamp 5.\<close>

theorem bootstrap_pg_class_ptr_witness:
  "unused_cols_ok example_unused_cols \<and> distinct [4096, 8192, 12288, 16384 :: addr] \<and>
   2 * length example_unused_cols + 19 < (2::nat) ^ 32 \<and> m_time \<lparr>m_time = 0\<rparr> + 1 < 5 \<and>
   (\<exists>c rows. new_Catalog \<lparr>m_time = 0\<rparr> 1001 1 example_unused_cols [4096, 8192, 12288, 16384, 20480] = Inr c \<and>
           pg_class_rows c 5 1 = Inr rows \<and>
           (\<forall>relname \<in> set [''pg_database'', ''pg_tablespace'', ''pg_namespace'', ''pg_class''].
              \<exists>p t. GetDatabaseCatalog c 1 relname = Inr p \<and> heap c p = Some t \<and>
                    map (\<lambda>row. (cell_at row 0, cell_at row 1)) (rows_of_relname rows relname) =
                      [(BigintCell p, IntCell (m_table_oid t))]) \<and>
           GetDatabaseCatalog c 1 ''pg_database'' = Inr (m_pg_database c) \<and>
           GetDatabaseCatalog c 1 ''pg_tablespace'' = Inr (m_pg_tablespace c))"
proof -
  have h1: "unused_cols_ok example_unused_cols"
    by (simp add: unused_cols_ok_def example_unused_cols_def)
  have h2: "distinct [4096, 8192, 12288, 16384 :: addr]" by simp
  have h3: "2 * length example_unused_cols + 19 < (2::nat) ^ 32"
    by (simp add: example_unused_cols_def)
  have h4: "m_time \<lparr>m_time = 0\<rparr> + 1 < 5" by simp
  show ?thesis
    by (intro conjI h1 h2 h3 h4 bootstrap_pg_class_ptr [OF h1 h2 h3 h4, of 1001 1 "[20480]"])
qed

subsection \<open>The bootstrap transaction\<close>

text \<open>
  Claim C7. The construction of the catalog succeeds and runs one transaction: the clock
  of the transaction manager advances by two (one begin, one commit), and every tuple of
  every table in the heap was inserted by that transaction and carries its commit
  timestamp. The heap holds the four catalog tables: \<open>pg_database\<close> and \<open>pg_tablespace\<close>
  (the members), \<open>pg_namespace\<close> and \<open>pg_class\<close> of the default database. \<open>pg_tablespace\<close>
  holds the rows \<open>pg_global\<close> and \<open>pg_default\<close>, \<open>pg_namespace\<close> the rows \<open>pg_catalog\<close> and
  \<open>public\<close>, and \<open>pg_class\<close> one row for each of the four tables, with the oid of that
  table. The oids come from the counter: the first one issued, the oid of \<open>pg_database\<close>,
  is \<open>START_OID\<close>, and the oids of the tables, tablespaces and namespaces, in the order
  they were issued, and the final value of the counter are strictly increasing (the
  counter does not wrap around during the bootstrap).
\<close>

theorem bootstrap_single_transaction:
  assumes ok: "unused_cols_ok cols"
    and d: "distinct [a1, a2, a3, a4]"
    and nw: "unat S + 2 * length cols + 19 < 2 ^ 32"
  shows "\<exists>c. new_Catalog tm S D cols (a1 # a2 # a3 # a4 # free) = Inr c \<and>
     m_txn_manager c = \<lparr>m_time = m_time tm + 2\<rparr> \<and>
     (\<forall>p t. heap c p = Some t \<longrightarrow> p \<in> {a1, a2, a3, a4} \<and> committed_by (m_time tm + 1) t) \<and>
     m_pg_database c = a1 \<and> m_pg_tablespace c = a2 \<and>
     GetDatabaseCatalog c D ''pg_namespace'' = Inr a3 \<and>
     GetDatabaseCatalog c D ''pg_class'' = Inr a4 \<and>
     (\<exists>o_db o_ts o_global o_default o_ns o_catalog o_public o_class.
        map (\<lambda>p. map_option m_table_oid (heap c p)) [a1, a2, a3, a4] =
          [Some o_db, Some o_ts, Some o_ns, Some o_class] \<and>
        table_rows c a2 = Some [[IntCell o_global, VarcharCell (Some ''pg_global'')],
                                [IntCell o_default, VarcharCell (Some ''pg_default'')]] \<and>
        table_rows c a3 = Some [[IntCell o_catalog, VarcharCell (Some ''pg_catalog'')],
                                [IntCell o_public, VarcharCell (Some ''public'')]] \<and>
        map_option (map (\<lambda>row. (cell_at row 1, cell_at row 2))) (table_rows c a4) =
          Some [(IntCell o_db, VarcharCell (Some ''pg_database'')),
                (IntCell o_ts, VarcharCell (Some ''pg_tablespace'')),
                (IntCell o_ns, VarcharCell (Some ''pg_namespace'')),
                (IntCell o_class, VarcharCell (Some ''pg_class''))] \<and>
        o_db = S \<and>
        sorted_wrt (<) [o_db, o_ts, o_global, o_default, o_ns, o_catalog, o_public, o_class,
                        m_oid c])"
proof -
  let ?n = "length cols"
  from nw have b: "2 * length cols + 19 < 2 ^ 32" by simp
  from new_Catalog_state [OF ok d b] obtain c where
    c: "new_Catalog tm S D cols (a1 # a2 # a3 # a4 # free) = Inr c"
    and post: "bootstrap_post tm S D (length cols) a1 a2 a3 a4 free c"
    by blast
  from post have tm: "m_txn_manager c = \<lparr>m_time = m_time tm + 2\<rparr>"
    and m: "m_pg_database c = a1" "m_pg_tablespace c = a2"
      "GetDatabaseCatalog c D ''pg_namespace'' = Inr a3"
      "GetDatabaseCatalog c D ''pg_class'' = Inr a4"
    and oid: "m_oid c = S + of_nat (2 * ?n + 19)"
    unfolding bootstrap_post_def by simp_all
  from post have po: "map_option m_table_oid (heap c a1) = Some S"
    "map_option m_table_oid (heap c a2) = Some (S + of_nat (2 * ?n + 3))"
    "map_option m_table_oid (heap c a3) = Some (S + of_nat (2 * ?n + 8))"
    "map_option m_table_oid (heap c a4) = Some (S + of_nat (2 * ?n + 13))"
    unfolding bootstrap_post_def by simp_all
  from post have pc: "map_option (committed_by (m_time tm + 1)) (heap c a1) = Some True"
    "map_option (committed_by (m_time tm + 1)) (heap c a2) = Some True"
    "map_option (committed_by (m_time tm + 1)) (heap c a3) = Some True"
    "map_option (committed_by (m_time tm + 1)) (heap c a4) = Some True"
    and none: "\<forall>p. p \<notin> {a1, a2, a3, a4} \<longrightarrow> heap c p = None"
    unfolding bootstrap_post_def by simp_all
  from post have r2: "table_rows c a2 =
      Some [[IntCell (S + of_nat (2 * ?n + 6)), VarcharCell (Some ''pg_global'')],
            [IntCell (S + of_nat (2 * ?n + 7)), VarcharCell (Some ''pg_default'')]]"
    and r3: "table_rows c a3 =
      Some [[IntCell (S + of_nat (2 * ?n + 11)), VarcharCell (Some ''pg_catalog'')],
            [IntCell (S + of_nat (2 * ?n + 12)), VarcharCell (Some ''public'')]]"
    unfolding bootstrap_post_def by simp_all
  from post have r4: "map_option (map (\<lambda>row. (cell_at row 1, cell_at row 2))) (table_rows c a4) =
          Some [(IntCell S, VarcharCell (Some ''pg_database'')),
                (IntCell (S + of_nat (2 * ?n + 3)), VarcharCell (Some ''pg_tablespace'')),
                (IntCell (S + of_nat (2 * ?n + 8)), VarcharCell (Some ''pg_namespace'')),
                (IntCell (S + of_nat (2 * ?n + 13)), VarcharCell (Some ''pg_class''))]"
    unfolding bootstrap_post_def by (simp add: cell_at_def)
  have all: "\<forall>p t. heap c p = Some t \<longrightarrow> p \<in> {a1, a2, a3, a4} \<and> committed_by (m_time tm + 1) t"
  proof (intro allI impI)
    fix p t assume pt: "heap c p = Some t"
    with none have "p \<in> {a1, a2, a3, a4}" by auto
    moreover from this pt pc have "committed_by (m_time tm + 1) t" by auto
    ultimately show "p \<in> {a1, a2, a3, a4} \<and> committed_by (m_time tm + 1) t" ..
  qed
  have u: "\<And>k. k \<le> 2 * ?n + 19 \<Longrightarrow> unat (S + of_nat k) = unat S + k"
    using nw by (intro unat_oid_offset) simp
  have u0: "unat S = unat S + 0" by simp
  have srt: "sorted_wrt (<) [S, S + of_nat (2 * ?n + 3), S + of_nat (2 * ?n + 6),
      S + of_nat (2 * ?n + 7), S + of_nat (2 * ?n + 8), S + of_nat (2 * ?n + 11),
      S + of_nat (2 * ?n + 12), S + of_nat (2 * ?n + 13), S + of_nat (2 * ?n + 19)]"
    by (simp add: word_less_nat_alt u del: of_nat_add of_nat_mult of_nat_numeral)
  have ex: "\<exists>o_db o_ts o_global o_default o_ns o_catalog o_public o_class.
        map (\<lambda>p. map_option m_table_oid (heap c p)) [a1, a2, a3, a4] =
          [Some o_db, Some o_ts, Some o_ns, Some o_class] \<and>
        table_rows c a2 = Some [[IntCell o_global, VarcharCell (Some ''pg_global'')],
                                [IntCell o_default, VarcharCell (Some ''pg_default'')]] \<and>
        table_rows c a3 = Some [[IntCell o_catalog, VarcharCell (Some ''pg_catalog'')],
                                [IntCell o_public, VarcharCell (Some ''public'')]] \<and>
        map_option (map (\<lambda>row. (cell_at row 1, cell_at row 2))) (table_rows c a4) =
          Some [(IntCell o_db, VarcharCell (Some ''pg_database'')),
                (IntCell o_ts, VarcharCell (Some ''pg_tablespace'')),
                (IntCell o_ns, VarcharCell (Some ''pg_namespace'')),
                (IntCell o_class, VarcharCell (Some ''pg_class''))] \<and>
        o_db = S \<and>
        sorted_wrt (<) [o_db, o_ts, o_global, o_default, o_ns, o_catalog, o_public, o_class,
                        m_oid c]"
    apply (rule exI [of _ S])
    apply (rule exI [of _ "S + of_nat (2 * ?n + 3)"])
    apply (rule exI [of _ "S + of_nat (2 * ?n + 6)"])
    apply (rule exI [of _ "S + of_nat (2 * ?n + 7)"])
    apply (rule exI [of _ "S + of_nat (2 * ?n + 8)"])
    apply (rule exI [of _ "S + of_nat (2 * ?n + 11)"])
    apply (rule exI [of _ "S + of_nat (2 * ?n + 12)"])
    apply (rule exI [of _ "S + of_nat (2 * ?n + 13)"])
    apply (intro conjI)
    subgoal using po by simp
    subgoal by (rule r2)
    subgoal by (rule r3)
    subgoal by (rule r4)
    subgoal by (rule refl)
    subgoal unfolding oid by (rule srt)
    done
  show ?thesis
    by (rule exI [of _ c]) (intro conjI c tm all m ex)
qed

text \<open>The hypotheses of C7 hold for the concrete catalog.\<close>

theorem bootstrap_single_transaction_witness:
  "unused_cols_ok example_unused_cols \<and> distinct [4096, 8192, 12288, 16384 :: addr] \<and>
   unat (1001 :: oid_t) + 2 * length example_unused_cols + 19 < 2 ^ 32 \<and>
   (\<exists>c. new_Catalog \<lparr>m_time = 0\<rparr> 1001 1 example_unused_cols [4096, 8192, 12288, 16384, 20480] = Inr c \<and>
     m_txn_manager c = \<lparr>m_time = m_time \<lparr>m_time = 0\<rparr> + 2\<rparr> \<and>
     (\<forall>p t. heap c p = Some t \<longrightarrow>
        p \<in> {4096, 8192, 12288, 16384} \<and> committed_by (m_time \<lparr>m_time = 0\<rparr> + 1) t) \<and>
     m_pg_database c = 4096 \<and> m_pg_tablespace c = 8192 \<and>
     GetDatabaseCatalog c 1 ''pg_namespace'' = Inr 12288 \<and>
     GetDatabaseCatalog c 1 ''pg_class'' = Inr 16384 \<and>
     (\<exists>o_db o_ts o_global o_default o_ns o_catalog o_public o_class.
        map (\<lambda>p. map_option m_table_oid (heap c p)) [4096, 8192, 12288, 16384] =
          [Some o_db, Some o_ts, Some o_ns, Some o_class] \<and>
        table_rows c 8192 = Some [[IntCell o_global, VarcharCell (Some ''pg_global'')],
                                  [IntCell o_default, VarcharCell (Some ''pg_default'')]] \<and>
        table_rows c 12288 = Some [[IntCell o_catalog, VarcharCell (Some ''pg_catalog'')],
                                   [IntCell o_public, VarcharCell (Some ''public'')]] \<and>
        map_option (map (\<lambda>row. (cell_at row 1, cell_at row 2))) (table_rows c 16384) =
          Some [(IntCell o_db, VarcharCell (Some ''pg_database'')),
                (IntCell o_ts, VarcharCell (Some ''pg_tablespace'')),
                (IntCell o_ns, VarcharCell (Some ''pg_namespace'')),
                (IntCell o_class, VarcharCell (Some ''pg_class''))] \<and>
        o_db = 1001 \<and>
        sorted_wrt (<) [o_db, o_ts, o_global, o_default, o_ns, o_catalog, o_public, o_class,
                        m_oid c]))"
proof -
  have h1: "unused_cols_ok example_unused_cols"
    by (simp add: unused_cols_ok_def example_unused_cols_def)
  have h2: "distinct [4096, 8192, 12288, 16384 :: addr]" by simp
  have h3: "unat (1001 :: oid_t) + 2 * length example_unused_cols + 19 < 2 ^ 32"
    by (simp add: example_unused_cols_def)
  show ?thesis
    by (intro conjI h1 h2 h3
          bootstrap_single_transaction [OF h1 h2 h3, of "\<lparr>m_time = 0\<rparr>" 1 "[20480]"])
qed

subsection \<open>The table handle against the catalog\<close>

lemmas example_defs = example_catalog_def example_unused_cols_def example_handle_def
  example_schema_def example_CreateTable_def

text \<open>
  Claim C5 says that the row \<open>CreateTable\<close> inserts into \<open>pg_class\<close> carries the pointer to
  the backing table in \<open>__ptr\<close>, the new oid in \<open>oid\<close>, the namespace of the handle in
  \<open>relnamespace\<close> and the oid of \<open>pg_default\<close> in \<open>reltablespace\<close>. On the bootstrapped
  catalog, \<open>CreateTable\<close> of a table \<open>t\<close> through the handle of the namespace \<open>public\<close>
  (oid 1019) inserts a row whose attribute 0 (\<open>__ptr\<close>) is the new oid 1026, whose
  attribute 1 (\<open>oid\<close>) is the name, whose attribute 2 (\<open>relname\<close>) is the namespace oid,
  whose attribute 3 (\<open>relnamespace\<close>) is the oid 1014 of \<open>pg_default\<close> and whose attribute 4
  (\<open>reltablespace\<close>) is not set; the object allocated for the table (at 20480) is gone
  when the function returns.
\<close>

theorem CreateTable_row_misses_ptr:
  "ebind example_CreateTable (\<lambda>c. Inr (map_option last (table_rows c 16384), heap c 20480, m_oid c)) =
     Inr (Some [IntCell 1026, VarcharCell (Some ''t''), IntCell 1019, IntCell 1014, Unset], None, 1027)"
  by (simp add: example_defs exec_defs exec_defs2 table_rows_def CreateTable_def delete_def)

text \<open>
  Claim C9 says that a lookup that misses returns not found. On the bootstrapped catalog,
  \<open>GetTableEntry\<close> of a name that no row holds reads the namespace through the null row
  pointer that \<open>FindRow\<close> returned.
\<close>

theorem GetTableEntry_missing_name_fails:
  "ebind example_catalog (\<lambda>c. GetTableEntry example_handle c 5 ''no_such_table'') = Inl NullDereference"
  by (simp add: example_defs exec_defs exec_defs2 GetTableEntry_def)

text \<open>
  Claim C10 says that \<open>GetTableEntry\<close> returns null for a name that is in \<open>pg_class\<close> under
  another namespace. On the bootstrapped catalog \<open>pg_class\<close> is in \<open>pg_class\<close>, with
  \<open>relnamespace\<close> 1018 (\<open>pg_catalog\<close>); the handle of the namespace \<open>public\<close> (1019) looks
  the name up in attribute 1, which holds the oids, finds no row, and reads through the
  null row pointer.
\<close>

theorem GetTableEntry_other_namespace_fails:
  "ebind example_catalog (\<lambda>c. ebind (pg_class_rows c 5 1) (\<lambda>rows.
     Inr (map (\<lambda>row. cell_at row 3) (rows_of_relname rows ''pg_class''),
          GetTableEntry example_handle c 5 ''pg_class''))) =
   Inr ([IntCell 1018], Inl NullDereference)"
  by (simp add: example_defs exec_defs exec_defs2 GetTableEntry_def pg_class_rows_def
        rows_of_relname_def cell_at_def)



section \<open>Properties of checkpoints and recovery\<close>

subsection \<open>Deltas\<close>

lemma length_ApplyDelta [simp]: "length (ApplyDelta d row) = length row"
  unfolding ApplyDelta_def
  by (induction d arbitrary: row) (simp_all split: prod.splits)

lemma ApplyDelta_Nil [simp]: "ApplyDelta [] row = row"
  by (simp add: ApplyDelta_def)

lemma ApplyDelta_Cons: "ApplyDelta ((c, v) # d) row = ApplyDelta d (row[c := v])"
  by (simp add: ApplyDelta_def)

lemma ApplyDelta_other: "i \<notin> fst ` set d \<Longrightarrow> ApplyDelta d row ! i = row ! i"
proof (induction d arbitrary: row)
  case Nil
  show ?case by simp
next
  case (Cons x d)
  obtain c v where x: "x = (c, v)" by (cases x)
  with Cons.prems have "i \<noteq> c" "i \<notin> fst ` set d" by auto
  with Cons.IH [of "row[c := v]"] x show ?case
    by (simp add: ApplyDelta_Cons)
qed

lemma ApplyDelta_function:
  "i < length row \<Longrightarrow> i \<in> fst ` set d \<Longrightarrow> \<forall>(c, v) \<in> set d. v = f c \<Longrightarrow> ApplyDelta d row ! i = f i"
proof (induction d arbitrary: row)
  case Nil
  then show ?case by simp
next
  case (Cons x d)
  obtain c v where x: "x = (c, v)" by (cases x)
  from Cons.prems(3) x have v: "v = f c" and rest: "\<forall>(c, v) \<in> set d. v = f c" by auto
  show ?case
  proof (cases "i \<in> fst ` set d")
    case True
    with Cons.IH [of "row[c := v]"] Cons.prems(1) rest x show ?thesis
      by (simp add: ApplyDelta_Cons)
  next
    case False
    with Cons.prems(2) x have "i = c" by auto
    with False Cons.prems(1) v x show ?thesis
      by (simp add: ApplyDelta_Cons ApplyDelta_other)
  qed
qed

lemma ApplyDelta_before_image: "ApplyDelta (before_image d row) (ApplyDelta d row) = row"
proof (rule nth_equalityI)
  show "length (ApplyDelta (before_image d row) (ApplyDelta d row)) = length row" by simp
next
  fix i assume "i < length (ApplyDelta (before_image d row) (ApplyDelta d row))"
  then have i: "i < length row" by simp
  show "ApplyDelta (before_image d row) (ApplyDelta d row) ! i = row ! i"
  proof (cases "i \<in> fst ` set d")
    case True
    with i have "i \<in> fst ` set (before_image d row)"
      by (force simp: before_image_def)
    moreover have "\<forall>(c, v) \<in> set (before_image d row). v = row ! c"
      by (auto simp: before_image_def)
    ultimately show ?thesis
      using i ApplyDelta_function [of i "ApplyDelta d row" "before_image d row" "\<lambda>c. row ! c"]
      by simp
  next
    case False
    then have "i \<notin> fst ` set (before_image d row)"
      by (auto simp: before_image_def) (metis fst_conv image_eqI)
    with False show ?thesis by (simp add: ApplyDelta_other)
  qed
qed

subsection \<open>Reading a table that is at rest\<close>

lemma Select_head_visible: "head_visible txn t \<Longrightarrow> Select txn t = Some (current t)"
  by (cases "chain t") (simp_all add: head_visible_def Select_def)

lemma quiescent_head_visible:
  "quiescent T tbl \<Longrightarrow> T \<le> txn \<Longrightarrow> list_all (head_visible txn) tbl"
  by (induction tbl)
    (auto simp: quiescent_def head_visible_def split: list.splits stamp.splits)

lemma quiescent_mono: "quiescent T tbl \<Longrightarrow> T \<le> T' \<Longrightarrow> quiescent T' tbl"
  by (induction tbl) (auto simp: quiescent_def split: list.splits stamp.splits)

lemma scan_slots_visible:
  "list_all (head_visible txn) ts \<Longrightarrow>
   map fst (fst (scan_slots txn m it ts)) = [it..<it + min m (length ts)] \<and>
   map snd (fst (scan_slots txn m it ts)) = map current (take m ts) \<and>
   snd (scan_slots txn m it ts) = it + min m (length ts)"
proof (induction ts arbitrary: m it)
  case Nil
  show ?case by simp
next
  case (Cons t ts)
  then have sel: "Select txn t = Some (current t)" and rest: "list_all (head_visible txn) ts"
    by (simp_all add: Select_head_visible)
  show ?case
  proof (cases m)
    case 0
    then show ?thesis by simp
  next
    case (Suc m')
    obtain x1 x2 where r: "scan_slots txn m' (it + 1) ts = (x1, x2)"
      by (cases "scan_slots txn m' (it + 1) ts")
    let ?k = "min m' (length ts)"
    from Cons.IH [OF rest, of m' "it + 1"] r
    have x1: "map fst x1 = [Suc it..<Suc it + ?k]" "map snd x1 = map current (take m' ts)"
      and x2: "x2 = Suc it + ?k"
      by simp_all
    have u: "[it..<it + Suc ?k] = it # [Suc it..<Suc it + ?k]"
      by (subst upt_rec) simp
    have "scan_slots txn m it (t # ts) = ((it, current t) # x1, x2)"
      using sel Suc r by simp
    moreover have "min m (length (t # ts)) = Suc ?k" using Suc by simp
    ultimately show ?thesis
      using x1 x2 u Suc by simp
  qed
qed

lemma scan_table_visible:
  "list_all (head_visible txn) tbl \<Longrightarrow>
   map fst (scan_table txn it tbl) = [it..<length tbl] \<and>
   map snd (scan_table txn it tbl) = map current (drop it tbl)"
proof (induction txn it tbl rule: scan_table.induct)
  case (1 txn it tbl)
  show ?case
  proof (cases "it < length tbl")
    case False
    then show ?thesis by (simp add: scan_table.simps [of txn it tbl])
  next
    case True
    obtain columns it' where sc: "Scan txn it 100 tbl = (columns, it')"
      by (cases "Scan txn it 100 tbl")
    from "1.prems" have vis: "list_all (head_visible txn) (drop it tbl)"
      by (simp add: list_all_iff) (meson in_set_dropD)
    let ?k = "min 100 (length tbl - it)"
    from scan_slots_visible [OF vis, of 100 it] sc
    have c1: "map fst columns = [it..<it + ?k]"
      and c2: "map snd columns = map current (take 100 (drop it tbl))"
      and c3: "it' = it + ?k"
      by (simp_all add: Scan_def)
    from "1.IH" [OF True sc [symmetric] refl "1.prems"]
    have ih1: "map fst (scan_table txn it' tbl) = [it'..<length tbl]"
      and ih2: "map snd (scan_table txn it' tbl) = map current (drop it' tbl)"
      by simp_all
    have le: "it + ?k \<le> length tbl" using True by simp
    have u: "[it..<it + ?k] @ [it + ?k..<length tbl] = [it..<length tbl]"
      using le upt_add_eq_append [of it "it + ?k" "length tbl - (it + ?k)"] by simp
    have d: "take 100 (drop it tbl) @ drop (it + ?k) tbl = drop it tbl"
    proof -
      have "take 100 (drop it tbl) = take ?k (drop it tbl)" by (simp add: min_def)
      moreover have "drop (it + ?k) tbl = drop ?k (drop it tbl)"
        by (simp add: add.commute)
      ultimately show ?thesis by (simp only: append_take_drop_id)
    qed
    have eq: "scan_table txn it tbl = columns @ scan_table txn it' tbl"
      using True sc by (simp add: scan_table.simps [of txn it tbl])
    have "map fst (scan_table txn it tbl) = [it..<it + ?k] @ [it + ?k..<length tbl]"
      by (simp only: eq map_append c1 c3 ih1 [unfolded c3])
    then have f: "map fst (scan_table txn it tbl) = [it..<length tbl]"
      by (simp only: u)
    have "map snd (scan_table txn it tbl) =
            map current (take 100 (drop it tbl) @ drop (it + ?k) tbl)"
      by (simp only: eq map_append c2 c3 ih2 [unfolded c3])
    then have "map snd (scan_table txn it tbl) = map current (drop it tbl)"
      by (simp only: d)
    with f show ?thesis ..
  qed
qed

lemma PrintAllRows_from_visible:
  "list_all (head_visible txn) tbl \<Longrightarrow> PrintAllRows_from txn it tbl = map current (drop it tbl)"
proof (induction txn it tbl rule: PrintAllRows_from.induct)
  case (1 txn it tbl)
  show ?case
  proof (cases "it < length tbl")
    case False
    then show ?thesis by (simp add: PrintAllRows_from.simps [of txn it tbl])
  next
    case True
    obtain columns it' where sc: "Scan txn it 100 tbl = (columns, it')"
      by (cases "Scan txn it 100 tbl")
    from "1.prems" have vis: "list_all (head_visible txn) (drop it tbl)"
      by (simp add: list_all_iff) (meson in_set_dropD)
    let ?k = "min 100 (length tbl - it)"
    from scan_slots_visible [OF vis, of 100 it] sc
    have c2: "map snd columns = map current (take 100 (drop it tbl))"
      and c3: "it' = it + ?k"
      by (simp_all add: Scan_def)
    from "1.IH" [OF True sc [symmetric] refl "1.prems"]
    have ih2: "PrintAllRows_from txn it' tbl = map current (drop it' tbl)" .
    have d: "take 100 (drop it tbl) @ drop (it + ?k) tbl = drop it tbl"
    proof -
      have "take 100 (drop it tbl) = take ?k (drop it tbl)" by (simp add: min_def)
      moreover have "drop (it + ?k) tbl = drop ?k (drop it tbl)"
        by (simp add: add.commute)
      ultimately show ?thesis by (simp only: append_take_drop_id)
    qed
    have eq: "PrintAllRows_from txn it tbl = map snd columns @ PrintAllRows_from txn it' tbl"
      using True sc by (simp add: PrintAllRows_from.simps [of txn it tbl])
    have "PrintAllRows_from txn it tbl =
            map current (take 100 (drop it tbl) @ drop (it + ?k) tbl)"
      by (simp only: eq map_append c2 c3 ih2 [unfolded c3])
    then show ?thesis
      by (simp only: d)
  qed
qed

lemma PrintAllRows_quiescent:
  "quiescent T (st_data table) \<Longrightarrow> T \<le> txn \<Longrightarrow> PrintAllRows txn table = images (st_data table)"
  by (simp add: PrintAllRows_def images_def PrintAllRows_from_visible quiescent_head_visible)

subsection \<open>Transactions on a table at rest\<close>

lemma images_stamp_table [simp]: "images (stamp_table txn commit_ts tbl) = images tbl"
  by (simp add: images_def stamp_table_def comp_def)

lemma images_append [simp]: "images (tbl @ tbl') = images tbl @ images tbl'"
  by (simp add: images_def)

lemma images_fresh [simp]: "images (map (\<lambda>row. Tuple row chain0) rows) = rows"
  by (simp add: images_def comp_def)

lemma length_images [simp]: "length (images tbl) = length tbl"
  by (simp add: images_def)

lemma length_stamp_table [simp]: "length (stamp_table txn commit_ts tbl) = length tbl"
  by (simp add: stamp_table_def)

lemma quiescent_in_transaction: "quiescent T tbl \<Longrightarrow> T \<le> txn \<Longrightarrow> in_transaction txn tbl"
  by (induction tbl)
    (auto simp: quiescent_def in_transaction_def split: list.splits stamp.splits)

lemma in_transaction_append:
  "in_transaction txn (tbl @ tbl') \<longleftrightarrow> in_transaction txn tbl \<and> in_transaction txn tbl'"
  by (simp add: in_transaction_def)

lemma stamp_in_transaction:
  "in_transaction txn tbl \<Longrightarrow> txn \<le> commit_ts \<Longrightarrow> commit_ts < T \<Longrightarrow>
   quiescent T (stamp_table txn commit_ts tbl)"
  by (induction tbl)
    (auto simp: quiescent_def in_transaction_def stamp_table_def stamp_version_def
          split: list.splits stamp.splits)

lemma fold_Insert:
  "fold (\<lambda>row data. snd (Insert txn row data)) rows data =
     data @ map (\<lambda>row. Tuple row [Version (Uncommitted txn) Created]) rows"
  by (induction rows arbitrary: data) (simp_all add: Insert_def)

lemma InsertRandomRows_quiescent:
  assumes "quiescent (m_time tm) (st_data table)"
    and "InsertRandomRows rows (table, tm) = (table', tm')"
  shows "quiescent (m_time tm') (st_data table') \<and>
         images (st_data table') = images (st_data table) @ rows \<and>
         st_oid table' = st_oid table \<and> st_schema table' = st_schema table"
proof -
  let ?txn = "m_time tm"
  let ?data = "st_data table @ map (\<lambda>row. Tuple row [Version (Uncommitted ?txn) Created]) rows"
  from assms(2) have t': "table' = table\<lparr>st_data := stamp_table ?txn (?txn + 1) ?data\<rparr>"
    and tm': "m_time tm' = ?txn + 2"
    by (auto simp: InsertRandomRows_def BeginTransaction_def Commit_def fold_Insert)
  have "in_transaction ?txn ?data"
    using quiescent_in_transaction [OF assms(1) le_refl]
    by (simp add: in_transaction_append) (simp add: in_transaction_def list_all_iff)
  then have "quiescent (?txn + 2) (stamp_table ?txn (?txn + 1) ?data)"
    by (rule stamp_in_transaction) simp_all
  then show ?thesis
    by (simp add: t' tm')
qed

lemma GenerateAndPopulate_fold:
  assumes "quiescent (m_time tm) (st_data table)"
    and "fold InsertRandomRows workload (table, tm) = (table', tm')"
  shows "quiescent (m_time tm') (st_data table') \<and>
         images (st_data table') = images (st_data table) @ concat workload \<and>
         st_oid table' = st_oid table \<and> st_schema table' = st_schema table"
  using assms
proof (induction workload arbitrary: table tm)
  case Nil
  then show ?case by simp
next
  case (Cons rows workload)
  obtain table1 tm1 where s: "InsertRandomRows rows (table, tm) = (table1, tm1)"
    by (cases "InsertRandomRows rows (table, tm)")
  from InsertRandomRows_quiescent [OF Cons.prems(1) s]
  have q: "quiescent (m_time tm1) (st_data table1)"
    and i: "images (st_data table1) = images (st_data table) @ rows"
    and o: "st_oid table1 = st_oid table" "st_schema table1 = st_schema table"
    by simp_all
  from Cons.prems(2) s have "fold InsertRandomRows workload (table1, tm1) = (table', tm')"
    by simp
  from Cons.IH [OF q this] i o show ?case by simp
qed

subsection \<open>Checkpoints\<close>

lemma Process_quiescent:
  assumes "quiescent T (st_data table)" and "T \<le> txn"
  shows "Process txn table =
           \<lparr>hdr_checkpoint_ts = txn, hdr_table_count = 1,
            sections = [\<lparr>sec_table_oid = st_oid table, sec_schema_fingerprint = st_schema table,
                          sec_tuple_count = length (st_data table),
                          sec_tuples = zip [0..<length (st_data table)] (images (st_data table))\<rparr>]\<rparr>"
proof -
  let ?tuples = "scan_table txn 0 (st_data table)"
  from scan_table_visible [OF quiescent_head_visible [OF assms], of 0]
  have f: "map fst ?tuples = [0..<length (st_data table)]"
    and s: "map snd ?tuples = images (st_data table)"
    by (simp_all add: images_def)
  have "?tuples = zip (map fst ?tuples) (map snd ?tuples)"
    by (simp add: zip_map_fst_snd)
  then have z: "?tuples = zip [0..<length (st_data table)] (images (st_data table))"
    by (simp only: f s)
  have l: "length ?tuples = length (st_data table)"
    by (subst z) (simp add: images_def)
  show ?thesis
    unfolding Process_def Let_def l
    by (simp only: z [symmetric])
qed

subsection \<open>Recovery\<close>

lemma seq_append: "seq (fs @ gs) s = ebind (seq fs s) (seq gs)"
  by (induction fs arbitrary: s) (simp_all add: ebind_def split: sum.splits)

lemma recovering_start:
  "recovering oid schema [] (RegisterTable (new_SqlTable schema oid) (StartRecovery txn))"
  by (simp add: recovering_def RegisterTable_def StartRecovery_def new_SqlTable_def images_def)

lemma recover_tuple_recovering:
  assumes "recovering oid schema imgs cm"
  shows "\<exists>cm'. recover_tuple oid (length imgs) row cm = Inr cm' \<and>
               recovering oid schema (imgs @ [row]) cm' \<and> cm_txn cm' = cm_txn cm"
proof -
  from assms obtain data where
    t: "cm_tables cm = [(oid, \<lparr>st_oid = oid, st_schema = schema, st_data = data\<rparr>)]"
    and i: "images data = imgs"
    and o: "list_all (\<lambda>t. case chain t of [] \<Rightarrow> False
                          | v # _ \<Rightarrow> begin_ts v = Uncommitted (cm_txn cm)) data"
    and m: "\<forall>i < length imgs. map_of (cm_slot_map cm) (oid, i) = Some i"
    unfolding recovering_def by blast
  from i have l: "length data = length imgs" by (auto simp: images_def)
  let ?data = "data @ [Tuple row [Version (Uncommitted (cm_txn cm)) Created]]"
  let ?cm = "cm\<lparr>cm_tables := [(oid, \<lparr>st_oid = oid, st_schema = schema, st_data = ?data\<rparr>)],
                cm_slot_map := ((oid, length imgs), length imgs) # cm_slot_map cm\<rparr>"
  have r: "recover_tuple oid (length imgs) row cm = Inr ?cm"
    by (simp add: recover_tuple_def registered_def t Insert_def set_table_def l)
  have "recovering oid schema (imgs @ [row]) ?cm"
    unfolding recovering_def
    using i o m
    by (intro exI [of _ ?data]) (auto simp: images_def less_Suc_eq list_all_iff split: list.splits)
  with r show ?thesis by simp
qed

lemma recover_tuples_recovering:
  assumes "recovering oid schema imgs cm"
  shows "\<exists>cm'. seq (map (\<lambda>(slot, row). recover_tuple oid slot row)
                     (zip [length imgs..<length imgs + length rows] rows)) cm = Inr cm' \<and>
               recovering oid schema (imgs @ rows) cm' \<and> cm_txn cm' = cm_txn cm"
  using assms
proof (induction rows arbitrary: imgs cm)
  case Nil
  then show ?case by simp
next
  case (Cons row rows)
  from recover_tuple_recovering [OF Cons.prems, of row] obtain cm1 where
    r: "recover_tuple oid (length imgs) row cm = Inr cm1"
    and i: "recovering oid schema (imgs @ [row]) cm1" and t: "cm_txn cm1 = cm_txn cm"
    by blast
  from Cons.IH [OF i] obtain cm' where
    s: "seq (map (\<lambda>(slot, row). recover_tuple oid slot row)
              (zip [length (imgs @ [row])..<length (imgs @ [row]) + length rows] rows)) cm1 = Inr cm'"
    and i': "recovering oid schema ((imgs @ [row]) @ rows) cm'" and t': "cm_txn cm' = cm_txn cm1"
    by blast
  have u: "[length imgs..<length imgs + length (row # rows)] =
             length imgs # [length (imgs @ [row])..<length (imgs @ [row]) + length rows]"
    by (subst upt_rec) simp
  show ?case
    unfolding u using r s i' t t' by (intro exI [of _ cm']) simp
qed

lemma Recover_checkpoint:
  assumes "quiescent T (st_data table)" and "T \<le> txn"
  shows "\<exists>cm. Recover (Process txn table)
                 (RegisterTable (new_SqlTable (st_schema table) (st_oid table))
                    (StartRecovery recovery_txn)) = Inr cm \<and>
              recovering (st_oid table) (st_schema table) (images (st_data table)) cm \<and>
              cm_txn cm = recovery_txn"
proof -
  let ?cm0 = "RegisterTable (new_SqlTable (st_schema table) (st_oid table))
                (StartRecovery recovery_txn) :: 'a CheckpointManager"
  let ?imgs = "images (st_data table)"
  have r0: "recovering (st_oid table) (st_schema table) [] ?cm0"
    by (rule recovering_start)
  from recover_tuples_recovering [OF r0, of ?imgs] obtain cm where
    s: "seq (map (\<lambda>(slot, row). recover_tuple (st_oid table) slot row)
              (zip [0..<length ?imgs] ?imgs)) ?cm0 = Inr cm"
    and i: "recovering (st_oid table) (st_schema table) ?imgs cm"
    and t: "cm_txn cm = cm_txn ?cm0"
    by auto
  have l: "length ?imgs = length (st_data table)" by (simp add: images_def)
  have reg: "registered ?cm0 (st_oid table) = Inr (new_SqlTable (st_schema table) (st_oid table))"
    by (simp add: registered_def RegisterTable_def StartRecovery_def new_SqlTable_def)
  have "Recover (Process txn table) ?cm0 = Inr cm"
    unfolding Process_quiescent [OF assms]
    using s reg unfolding new_SqlTable_def
    by (simp add: Recover_def recover_section_def)
  with i t show ?thesis
    by (simp add: RegisterTable_def StartRecovery_def)
qed

lemma commit_recovery_recovering:
  assumes "recovering oid schema imgs cm" and "commit_recovery cm tm = (cm', tm')"
    and "cm_txn cm \<le> m_time tm"
  shows "\<exists>recovered. registered cm' oid = Inr recovered \<and> images (st_data recovered) = imgs \<and>
           quiescent (m_time tm') (st_data recovered)"
proof -
  from assms(1) obtain data where
    t: "cm_tables cm = [(oid, \<lparr>st_oid = oid, st_schema = schema, st_data = data\<rparr>)]"
    and i: "images data = imgs"
    and o: "list_all (\<lambda>t. case chain t of [] \<Rightarrow> False
                          | v # _ \<Rightarrow> begin_ts v = Uncommitted (cm_txn cm)) data"
    unfolding recovering_def by blast
  let ?data = "stamp_table (cm_txn cm) (m_time tm) data"
  from assms(2) t have cm': "cm_tables cm' = [(oid, \<lparr>st_oid = oid, st_schema = schema, st_data = ?data\<rparr>)]"
    and tm': "m_time tm' = m_time tm + 1"
    by (auto simp: commit_recovery_def Commit_def)
  from o have "in_transaction (cm_txn cm) data"
    by (auto simp: in_transaction_def list_all_iff split: list.splits)
  from stamp_in_transaction [OF this assms(3), of "m_time tm + 1"]
  have "quiescent (m_time tm') ?data" by (simp add: tm')
  with i cm' show ?thesis by (simp add: registered_def)
qed

lemma quiescent_Nil [simp]: "quiescent T []"
  by (simp add: quiescent_def)

lemma GenerateAndPopulateRandomTable_quiescent:
  assumes "GenerateAndPopulateRandomTable schema workload txn_manager = (table, tm)"
  shows "quiescent (m_time tm) (st_data table) \<and> images (st_data table) = concat workload \<and>
         st_oid table = 1 \<and> st_schema table = schema"
proof -
  have "quiescent (m_time txn_manager) (st_data (new_SqlTable schema 1 :: 'a SqlTable))"
    by (simp add: new_SqlTable_def)
  from GenerateAndPopulate_fold [OF this assms [unfolded GenerateAndPopulateRandomTable_def]]
  show ?thesis by (simp add: new_SqlTable_def images_def)
qed

subsection \<open>The checkpoint round trip\<close>

text \<open>
  Claim C1. A table is populated by any workload of committed inserts, checkpointed by
  \<open>Process\<close> under a read transaction, and the checkpoint file is recovered into a new empty
  table (\<open>StartRecovery\<close>, \<open>RegisterTable\<close>, \<open>Recover\<close>). The recovery succeeds, and the rows
  of the recovered table are, as a multiset, the rows of the original table; these are the
  rows the workload inserted.
\<close>

theorem checkpoint_recovery_round_trip:
  "\<exists>original_rows recovered_rows.
     SimpleCheckpointRecovery schema workload txn_manager = Inr (original_rows, recovered_rows) \<and>
     mset recovered_rows = mset original_rows \<and>
     mset original_rows = mset (concat workload)"
proof -
  obtain table tm1 where g: "GenerateAndPopulateRandomTable schema workload txn_manager = (table, tm1)"
    by (cases "GenerateAndPopulateRandomTable schema workload txn_manager")
  let ?T = "m_time tm1"
  from GenerateAndPopulateRandomTable_quiescent [OF g]
  have q: "quiescent ?T (st_data table)" and i: "images (st_data table) = concat workload"
    and o: "st_oid table = 1" and s: "st_schema table = schema"
    by simp_all
  let ?t2 = "Suc (Suc ?T)"
  let ?t4 = "Suc (Suc ?t2)"
  let ?tm6 = "tm1\<lparr>m_time := Suc ?t4\<rparr>"
  from Recover_checkpoint [OF q le_refl, of ?t4] obtain cm where
    r: "Recover (Process ?T table) (RegisterTable (new_SqlTable schema 1) (StartRecovery ?t4))
          = Inr cm"
    and rc: "recovering 1 schema (concat workload) cm" and t: "cm_txn cm = ?t4"
    unfolding o s i by blast
  obtain cm1 tm7 where c: "commit_recovery cm ?tm6 = (cm1, tm7)"
    by (cases "commit_recovery cm ?tm6")
  from commit_recovery_recovering [OF rc c] t obtain recovered where
    reg: "registered cm1 1 = Inr recovered"
    and ri: "images (st_data recovered) = concat workload"
    and rq: "quiescent (m_time tm7) (st_data recovered)"
    by auto
  have p1: "PrintAllRows ?t2 table = concat workload"
    using PrintAllRows_quiescent [OF q, of ?t2] i by simp
  have p2: "PrintAllRows (m_time tm7) recovered = concat workload"
    using PrintAllRows_quiescent [OF rq le_refl] ri by simp
  have "SimpleCheckpointRecovery schema workload txn_manager = Inr (concat workload, concat workload)"
    using r c reg p1 p2
    by (simp add: SimpleCheckpointRecovery_def g BeginTransaction_def Commit_def)
  then show ?thesis by simp
qed


end
